theory Spec2Isabelle
  imports Main "HOL-Library.Monad_Syntax" "HOL-Library.Sublist"
begin

section \<open>The update script: data model and environment\<close>

text \<open>
  The script \<^verbatim>\<open>update.ts\<close> exists in two revisions: \<^verbatim>\<open>src/update.ts\<close> and
  \<^verbatim>\<open>src/unnamed/part_003\<close>. They differ in the comparator handed to \<^verbatim>\<open>sort\<close> and in
  \<^verbatim>\<open>fetchSHA256\<close>; everything else is the same code. Definitions taken from
  \<^verbatim>\<open>src/update.ts\<close> keep the source's names, those taken from \<^verbatim>\<open>part_003\<close> carry the
  suffix \<open>_003\<close>.
\<close>

text \<open>
  The interface \<^verbatim>\<open>TailscaleConfig\<close> exists for the type checker only. At run time the
  configuration is the object that \<^verbatim>\<open>JSON.parse\<close> built from the file, with the members
  that the file has. An object is the list of its own properties, key and value, in
  the order in which the platform enumerates them (ECMA-262, OrdinaryOwnPropertyKeys):
  the keys that are array indices in ascending order, then the other keys in the order
  of their creation. The values are strings, as the interface declares them.
\<close>

type_synonym TailscaleConfig = "(string \<times> string) list"

text \<open>
  What \<^verbatim>\<open>await fetch(url)\<close> gives: the promise rejects (or reading the body rejects), or
  there is a response with its \<^verbatim>\<open>ok\<close> flag and its decoded body.
\<close>

datatype 'a reply = Rejected | Reply bool 'a

text \<open>The exit of the build subprocess: \<^verbatim>\<open>command.output()\<close> throws, or gives an exit code.\<close>

datatype build_result = BuildThrows | BuildExit int

text \<open>The local clock as \<^verbatim>\<open>new Date()\<close> reports it: \<^verbatim>\<open>getFullYear()\<close>,
  \<^verbatim>\<open>getMonth()\<close> (counted from 0) and \<^verbatim>\<open>getDate()\<close>.\<close>

record clock =
  fullYear :: int
  month0 :: nat
  dayOfMonth :: nat

text \<open>
  Everything outside the script that one run reads. \<open>configFile\<close> is the content of
  the file at \<^verbatim>\<open>CONFIG_PATH\<close> (\<open>None\<close> when it cannot be read); \<open>githubLatest\<close> carries
  \<^verbatim>\<open>data.tag_name\<close> when the body is JSON whose \<^verbatim>\<open>tag_name\<close> is a string, and \<open>None\<close> when
  \<^verbatim>\<open>response.json()\<close> throws or \<^verbatim>\<open>tag_name\<close> is not a string (then \<^verbatim>\<open>tagName.startsWith\<close>
  throws a TypeError); \<open>sha256File\<close> is the reply for the package's \<^verbatim>\<open>.sha256\<close> URL, by
  package name; \<open>stablePageAgain\<close> is the second request of the listing that
  \<^verbatim>\<open>fetchSHA256\<close> of \<^verbatim>\<open>src/update.ts\<close> makes.
\<close>

record env =
  configFile :: "string option"
  stablePage :: "string reply"
  githubLatest :: "string option reply"
  sha256File :: "string \<Rightarrow> string reply"
  stablePageAgain :: "string reply"
  now :: clock
  writeSucceeds :: bool
  build :: build_result

section \<open>Strings, regular expressions, numbers and sorting of the platform\<close>

definition is_digit :: "char \<Rightarrow> bool" where
  \<comment> \<open>\<^verbatim>\<open>\d\<close>: an ASCII digit\<close>
  "is_digit c \<longleftrightarrow> c \<in> set ''0123456789''"

definition digits1 :: "string \<Rightarrow> (string \<times> string) option" where
  \<comment> \<open>\<^verbatim>\<open>\d+\<close> at the start of the text: the run of digits and the rest. The run is the
      longest one: in both patterns of the script a digit run is followed by a literal
      that is no digit, so a shorter run never leads to a match.\<close>
  "digits1 s = (let d = takeWhile is_digit s in
                if d = [] then None else Some (d, dropWhile is_digit s))"

definition lit :: "string \<Rightarrow> string \<Rightarrow> string option" where
  \<comment> \<open>a literal at the start of the text: the rest after it\<close>
  "lit p s = (if take (length p) s = p then Some (drop (length p) s) else None)"

definition version3 :: "string \<Rightarrow> (string \<times> string) option" where
  \<comment> \<open>the capture group \<^verbatim>\<open>(\d+\.\d+\.\d+)\<close>\<close>
  "version3 s = do {
     (a, s1) \<leftarrow> digits1 s;
     s2 \<leftarrow> lit ''.'' s1;
     (b, s3) \<leftarrow> digits1 s2;
     s4 \<leftarrow> lit ''.'' s3;
     (c, s5) \<leftarrow> digits1 s4;
     Some (a @ ''.'' @ b @ ''.'' @ c, s5)
   }"

definition matchTgzAt :: "string \<Rightarrow> (string \<times> string) option" where
  \<comment> \<open>\<^verbatim>\<open>/tailscale_(\d+\.\d+\.\d+)_amd64\.tgz/\<close> at the start of the text: capture and rest\<close>
  "matchTgzAt s = do {
     s1 \<leftarrow> lit ''tailscale_'' s;
     (v, s2) \<leftarrow> version3 s1;
     s3 \<leftarrow> lit ''_amd64.tgz'' s2;
     Some (v, s3)
   }"

definition matchAmd64At :: "string \<Rightarrow> (string \<times> string) option" where
  \<comment> \<open>\<^verbatim>\<open>/tailscale_(\d+\.\d+\.\d+)_amd64/\<close> at the start of the text\<close>
  "matchAmd64At s = do {
     s1 \<leftarrow> lit ''tailscale_'' s;
     (v, s2) \<leftarrow> version3 s1;
     s3 \<leftarrow> lit ''_amd64'' s2;
     Some (v, s3)
   }"

lemma digits1_shorter: "digits1 s = Some (d, r) \<Longrightarrow> length r < length s"
proof -
  assume h: "digits1 s = Some (d, r)"
  then have d: "takeWhile is_digit s \<noteq> []" and r: "r = dropWhile is_digit s"
    by (auto simp: digits1_def Let_def split: if_splits)
  have "length (takeWhile is_digit s) + length (dropWhile is_digit s) = length s"
    by (metis length_append takeWhile_dropWhile_id)
  with d r show ?thesis by (cases "takeWhile is_digit s") auto
qed

lemma lit_shorter: "lit p s = Some r \<Longrightarrow> length r \<le> length s"
  by (auto simp: lit_def split: if_splits)

lemma version3_shorter: "version3 s = Some (v, r) \<Longrightarrow> length r < length s"
  unfolding version3_def
  by (fastforce split: bind_splits dest: digits1_shorter lit_shorter)

lemma matchTgzAt_shorter: "matchTgzAt s = Some (v, r) \<Longrightarrow> length r < length s"
  unfolding matchTgzAt_def
  by (fastforce split: bind_splits dest: version3_shorter lit_shorter)

function matchAll_tgz :: "string \<Rightarrow> string list" where
  \<comment> \<open>\<^verbatim>\<open>[...html.matchAll(regex)].map(m => m[1])\<close>: the captures of the successive
      matches, each search starting where the previous match ended\<close>
  "matchAll_tgz [] = []"
| "matchAll_tgz (c # cs) =
     (case matchTgzAt (c # cs) of
        Some (v, rest) \<Rightarrow> v # matchAll_tgz rest
      | None \<Rightarrow> matchAll_tgz cs)"
  by pat_completeness auto
termination
  by (relation "measure length") (auto dest: matchTgzAt_shorter)


fun searchAmd64 :: "string \<Rightarrow> string option" where
  \<comment> \<open>\<^verbatim>\<open>s.match(/tailscale_(\d+\.\d+\.\d+)_amd64/)\<close> without the \<^verbatim>\<open>g\<close> flag: the capture of the
      leftmost match, tried at every start position in turn\<close>
  "searchAmd64 [] = None"
| "searchAmd64 (c # cs) =
     (case matchAmd64At (c # cs) of
        Some (v, rest) \<Rightarrow> Some v
      | None \<Rightarrow> searchAmd64 cs)"

fun split_on :: "char \<Rightarrow> string \<Rightarrow> string list" where
  \<comment> \<open>\<^verbatim>\<open>s.split(c)\<close> for a one-character separator; the empty text gives one empty piece\<close>
  "split_on c [] = [[]]"
| "split_on c (x # xs) =
     (if x = c then [] # split_on c xs
      else (case split_on c xs of
              p # ps \<Rightarrow> (x # p) # ps
            | [] \<Rightarrow> [[x]]))"

text \<open>
  The numbers that occur: \<^verbatim>\<open>Number(s)\<close> is an IEEE 754 double. On a run of decimal digits
  it is the double nearest to the integer written (ties to the even significand), and
  \<^verbatim>\<open>Infinity\<close> from \<open>2^1024 - 2^970\<close> on. Integers below \<open>2^53\<close> are doubles themselves.
\<close>

datatype jsnum = NaN | Fin nat | Infinity

fun bitlen :: "nat \<Rightarrow> nat" where
  "bitlen n = (if n = 0 then 0 else Suc (bitlen (n div 2)))"

declare bitlen.simps [simp del]

definition toDouble :: "nat \<Rightarrow> jsnum" where
  "toDouble n =
     (if n < 2 ^ 53 then Fin n
      else let e = bitlen n - 53;
               q = n div 2 ^ e;
               r = n mod 2 ^ e;
               h = 2 ^ (e - 1);
               q' = (if h < r \<or> (r = h \<and> odd q) then q + 1 else q)
           in if 2 ^ 1024 \<le> q' * 2 ^ e then Infinity else Fin (q' * 2 ^ e))"

definition digit_val :: "char \<Rightarrow> nat" where
  "digit_val c = of_char c - 48"

definition decimal :: "string \<Rightarrow> nat" where
  \<comment> \<open>the integer a run of digits writes; leading zeros count for nothing\<close>
  "decimal s = foldl (\<lambda>n c. 10 * n + digit_val c) 0 s"

definition Number :: "string \<Rightarrow> jsnum" where
  \<comment> \<open>\<^verbatim>\<open>Number(s)\<close> on the texts the script applies it to: the pieces between the dots of a
      captured version, which are non-empty runs of digits (\<open>matchAll_tgz_shape\<close> below).
      The empty text is 0. Any other text is given as \<open>NaN\<close> here; the platform reads
      more (signs, exponents, hexadecimal, surrounding blanks), which never reaches
      this code.\<close>
  "Number s = (if s = [] then Fin 0
               else if list_all is_digit s then toDouble (decimal s)
               else NaN)"

definition nth_opt :: "'a list \<Rightarrow> nat \<Rightarrow> 'a option" where
  \<comment> \<open>\<^verbatim>\<open>xs[i]\<close>: \<open>None\<close> is \<^verbatim>\<open>undefined\<close>\<close>
  "nth_opt xs i = (if i < length xs then Some (xs ! i) else None)"

fun strict_neq :: "jsnum option \<Rightarrow> jsnum option \<Rightarrow> bool" where
  \<comment> \<open>\<^verbatim>\<open>x !== y\<close> on numbers and \<^verbatim>\<open>undefined\<close>: \<^verbatim>\<open>NaN\<close> differs from everything\<close>
  "strict_neq None None = False"
| "strict_neq (Some NaN) y = True"
| "strict_neq x (Some NaN) = True"
| "strict_neq (Some x) (Some y) = (x \<noteq> y)"
| "strict_neq x y = True"

fun minus_sign :: "jsnum option \<Rightarrow> jsnum option \<Rightarrow> int" where
  \<comment> \<open>the sign of \<^verbatim>\<open>x - y\<close> as \<^verbatim>\<open>sort\<close> reads a comparator's result: negative, positive,
      or 0, which also stands for \<^verbatim>\<open>NaN\<close> (\<^verbatim>\<open>undefined\<close> converts to \<^verbatim>\<open>NaN\<close>)\<close>
  "minus_sign (Some (Fin a)) (Some (Fin b)) = sgn (int a - int b)"
| "minus_sign (Some Infinity) (Some (Fin b)) = 1"
| "minus_sign (Some (Fin a)) (Some Infinity) = - 1"
| "minus_sign x y = 0"

fun compareLoop :: "nat \<Rightarrow> nat \<Rightarrow> jsnum list \<Rightarrow> jsnum list \<Rightarrow> int" where
  \<comment> \<open>the loop \<^verbatim>\<open>if (aParts[i] !== bParts[i]) return bParts[i] - aParts[i]\<close> at index
      \<open>i\<close> with \<open>k\<close> rounds left, and \<^verbatim>\<open>return 0\<close> after the last round\<close>
  "compareLoop 0 i aParts bParts = 0"
| "compareLoop (Suc k) i aParts bParts =
     (if strict_neq (nth_opt aParts i) (nth_opt bParts i)
      then minus_sign (nth_opt bParts i) (nth_opt aParts i)
      else compareLoop k (Suc i) aParts bParts)"

definition compareVersions :: "string \<Rightarrow> string \<Rightarrow> int" where
  \<comment> \<open>the comparator of \<^verbatim>\<open>src/update.ts\<close>, lines 93 to 103\<close>
  "compareVersions a b =
     (let aParts = map Number (split_on CHR ''.'' a);
          bParts = map Number (split_on CHR ''.'' b)
      in compareLoop 3 0 aParts bParts)"

definition or_zero :: "jsnum option \<Rightarrow> jsnum" where
  \<comment> \<open>\<^verbatim>\<open>x || 0\<close>: \<^verbatim>\<open>undefined\<close>, \<^verbatim>\<open>NaN\<close> and 0 are falsy\<close>
  "or_zero x = (case x of None \<Rightarrow> Fin 0 | Some NaN \<Rightarrow> Fin 0 | Some v \<Rightarrow> v)"

fun compareLoop_003 :: "nat \<Rightarrow> nat \<Rightarrow> jsnum list \<Rightarrow> jsnum list \<Rightarrow> int" where
  "compareLoop_003 0 i aParts bParts = 0"
| "compareLoop_003 (Suc k) i aParts bParts =
     (let aPart = or_zero (nth_opt aParts i);
          bPart = or_zero (nth_opt bParts i)
      in if aPart \<noteq> bPart then minus_sign (Some bPart) (Some aPart)
         else compareLoop_003 k (Suc i) aParts bParts)"

definition compareVersions_003 :: "string \<Rightarrow> string \<Rightarrow> int" where
  \<comment> \<open>the comparator of \<^verbatim>\<open>part_003\<close>, lines 94 to 109\<close>
  "compareVersions_003 a b =
     (let aParts = map Number (split_on CHR ''.'' a);
          bParts = map Number (split_on CHR ''.'' b);
          maxLength = max (length aParts) (length bParts)
      in compareLoop_003 maxLength 0 aParts bParts)"

fun insert_sorted :: "('a \<Rightarrow> 'a \<Rightarrow> int) \<Rightarrow> 'a \<Rightarrow> 'a list \<Rightarrow> 'a list" where
  "insert_sorted cmp x [] = [x]"
| "insert_sorted cmp x (y # ys) =
     (if cmp x y \<le> 0 then x # y # ys else y # insert_sorted cmp x ys)"

definition sort_with :: "('a \<Rightarrow> 'a \<Rightarrow> int) \<Rightarrow> 'a list \<Rightarrow> 'a list" where
  \<comment> \<open>\<^verbatim>\<open>xs.sort(cmp)\<close>. The sort of the platform is stable, and with a comparator that is a
      total preorder there is one stable result, whatever the algorithm: an element
      goes before the ones it does not come after, and equal ones keep their order.
      Insertion from the right computes it.\<close>
  "sort_with cmp xs = foldr (insert_sorted cmp) xs []"

fun set_add_all :: "'a list \<Rightarrow> 'a list \<Rightarrow> 'a list" where
  \<comment> \<open>adding the elements to a \<^verbatim>\<open>Set\<close> that holds \<open>seen\<close>, in insertion order: the
      elements that are new, each once, in the order of their first occurrence\<close>
  "set_add_all seen [] = []"
| "set_add_all seen (x # xs) =
     (if x \<in> set seen then set_add_all seen xs
      else x # set_add_all (seen @ [x]) xs)"

definition unique :: "'a list \<Rightarrow> 'a list" where
  \<comment> \<open>\<^verbatim>\<open>[...new Set(xs)]\<close>\<close>
  "unique xs = set_add_all [] xs"

section \<open>VersionSource\<close>

definition fetchLatestVersionFromGitHub :: "env \<Rightarrow> string option" where
  "fetchLatestVersionFromGitHub e =
     (case githubLatest e of
        Rejected \<Rightarrow> None
      | Reply ok data \<Rightarrow>
          if \<not> ok then None
          else (case data of
                  None \<Rightarrow> None
                | Some tagName \<Rightarrow>
                    Some (if take 1 tagName = ''v'' then drop 1 tagName else tagName)))"

definition latestOfListing :: "(string \<Rightarrow> string \<Rightarrow> int) \<Rightarrow> string \<Rightarrow> string option" where
  \<comment> \<open>lines 78 to 108 of \<^verbatim>\<open>fetchLatestTailscaleVersion\<close>, from the text of the listing on,
      with the comparator of the revision. \<^verbatim>\<open>uniqueVersions[0]\<close> of an empty array would
      be \<^verbatim>\<open>undefined\<close>, which the caller treats as it treats \<^verbatim>\<open>null\<close>.\<close>
  "latestOfListing cmp html =
     (let versions = matchAll_tgz html in
      if versions = [] then None
      else (case sort_with cmp (unique versions) of
              [] \<Rightarrow> None
            | latestVersion # _ \<Rightarrow> Some latestVersion))"

definition fetchLatestWith :: "(string \<Rightarrow> string \<Rightarrow> int) \<Rightarrow> env \<Rightarrow> string option" where
  \<comment> \<open>the \<^verbatim>\<open>try\<close> and \<^verbatim>\<open>catch\<close> of \<^verbatim>\<open>fetchLatestTailscaleVersion\<close>: the fallback runs when
      something throws, not when the listing has no match\<close>
  "fetchLatestWith cmp e =
     (case stablePage e of
        Rejected \<Rightarrow> fetchLatestVersionFromGitHub e
      | Reply ok html \<Rightarrow>
          if \<not> ok then fetchLatestVersionFromGitHub e
          else latestOfListing cmp html)"

definition fetchLatestTailscaleVersion :: "env \<Rightarrow> string option" where
  "fetchLatestTailscaleVersion = fetchLatestWith compareVersions"

definition fetchLatestTailscaleVersion_003 :: "env \<Rightarrow> string option" where
  "fetchLatestTailscaleVersion_003 = fetchLatestWith compareVersions_003"


section \<open>ChecksumSource\<close>

definition is_space :: "char \<Rightarrow> bool" where
  \<comment> \<open>\<^verbatim>\<open>\s\<close>, and what \<^verbatim>\<open>trim\<close> removes, among the code units below 256\<close>
  "is_space c \<longleftrightarrow>
     c \<in> {CHR 0x09, CHR 0x0A, CHR 0x0B, CHR 0x0C, CHR 0x0D, CHR 0x20, CHR 0xA0}"

definition is_hex :: "char \<Rightarrow> bool" where
  \<comment> \<open>\<^verbatim>\<open>[a-f0-9]\<close> under the flag \<^verbatim>\<open>i\<close>\<close>
  "is_hex c \<longleftrightarrow> c \<in> set ''0123456789abcdefABCDEF''"

definition trim :: "string \<Rightarrow> string" where
  "trim s = rev (dropWhile is_space (rev (dropWhile is_space s)))"

definition first_field :: "string \<Rightarrow> string" where
  \<comment> \<open>\<^verbatim>\<open>s.split(/\s+/)[0]\<close>: the text before the first run of white space, all of \<open>s\<close>
      when there is none, and the empty text for the empty text\<close>
  "first_field s = takeWhile (\<lambda>c. \<not> is_space c) s"

fun includes_str :: "string \<Rightarrow> string \<Rightarrow> bool" where
  \<comment> \<open>\<^verbatim>\<open>line.includes(p)\<close>\<close>
  "includes_str [] p = (p = [])"
| "includes_str (c # cs) p = (take (length p) (c # cs) = p \<or> includes_str cs p)"

fun searchHex64 :: "string \<Rightarrow> string option" where
  \<comment> \<open>\<^verbatim>\<open>line.match(/([a-f0-9]{64})/i)\<close>: the leftmost 64 hexadecimal characters in a row\<close>
  "searchHex64 [] = None"
| "searchHex64 (c # cs) =
     (if 64 \<le> length (c # cs) \<and> list_all is_hex (take 64 (c # cs))
      then Some (take 64 (c # cs))
      else searchHex64 cs)"

fun scanLines :: "string \<Rightarrow> string list \<Rightarrow> string option" where
  \<comment> \<open>the loop over the lines of the listing in \<^verbatim>\<open>fetchSHA256\<close> of \<^verbatim>\<open>src/update.ts\<close>\<close>
  "scanLines packageName [] = None"
| "scanLines packageName (line # lines) =
     (if includes_str line packageName
      then (case searchHex64 line of
              Some hashMatch \<Rightarrow> Some hashMatch
            | None \<Rightarrow> scanLines packageName lines)
      else scanLines packageName lines)"

definition fetchSHA256 :: "env \<Rightarrow> string \<Rightarrow> string option" where
  \<comment> \<open>\<^verbatim>\<open>src/update.ts\<close>, lines 120 to 163\<close>
  "fetchSHA256 e packageName =
     (case sha256File e packageName of
        Rejected \<Rightarrow> None
      | Reply ok text \<Rightarrow>
          if ok then Some (first_field (trim text))
          else (case stablePageAgain e of
                  Rejected \<Rightarrow> None
                | Reply pageOk html \<Rightarrow>
                    if \<not> pageOk then None
                    else scanLines packageName (split_on CHR 0x0A html)))"

definition fetchSHA256_003 :: "env \<Rightarrow> string \<Rightarrow> string option" where
  \<comment> \<open>\<^verbatim>\<open>part_003\<close>, lines 124 to 151: the test \<^verbatim>\<open>/^[a-f0-9]{64}$/i\<close> throws on failure\<close>
  "fetchSHA256_003 e packageName =
     (case sha256File e packageName of
        Rejected \<Rightarrow> None
      | Reply ok text \<Rightarrow>
          if \<not> ok then None
          else let hash = first_field (trim text)
               in if \<not> (length hash = 64 \<and> list_all is_hex hash) then None
                  else Some hash)"

section \<open>The stored version and the date\<close>

definition extractVersion :: "string \<Rightarrow> string" where
  "extractVersion identifier =
     (case searchAmd64 identifier of Some v \<Rightarrow> v | None \<Rightarrow> [])"

definition digit_char :: "nat \<Rightarrow> char" where
  \<comment> \<open>the character of a decimal digit\<close>
  "digit_char d = ''0123456789'' ! (d mod 10)"

function String_nat :: "nat \<Rightarrow> string" where
  \<comment> \<open>\<^verbatim>\<open>String(n)\<close> for a natural number: its decimal digits\<close>
  "String_nat n =
     (if n < 10 then [digit_char n] else String_nat (n div 10) @ [digit_char (n mod 10)])"
  by pat_completeness auto
termination
  by (relation "measure id") auto

declare String_nat.simps [simp del]

definition String_int :: "int \<Rightarrow> string" where
  \<comment> \<open>\<^verbatim>\<open>`${year}`\<close> for an integer\<close>
  "String_int i = (if i < 0 then ''-'' @ String_nat (nat (- i)) else String_nat (nat i))"

definition padStart :: "nat \<Rightarrow> char \<Rightarrow> string \<Rightarrow> string" where
  \<comment> \<open>\<^verbatim>\<open>s.padStart(n, c)\<close> with a one-character filler\<close>
  "padStart n c s = replicate (n - length s) c @ s"

definition getCurrentDate :: "clock \<Rightarrow> string" where
  "getCurrentDate d =
     (let year = fullYear d;
          month = padStart 2 CHR ''0'' (String_nat (month0 d + 1));
          day = padStart 2 CHR ''0'' (String_nat (dayOfMonth d))
      in String_int year @ ''.'' @ month @ ''.'' @ day)"

section \<open>ConfigStore\<close>

text \<open>
  \<^verbatim>\<open>JSON.stringify(config, null, 4)\<close> and \<^verbatim>\<open>JSON.parse\<close> are functions of the platform;
  they are modelled after ECMA-262 on the objects whose property values are strings,
  with any keys, in any number and order. Strings are lists of code units below 256.
\<close>

definition array_index :: "string \<Rightarrow> nat option" where
  \<comment> \<open>a key that is an array index: the canonical decimal text of an integer below
      \<open>2^32 - 1\<close>. Two different keys have different indices.\<close>
  "array_index k =
     (if k \<noteq> [] \<and> list_all is_digit k \<and> (k = ''0'' \<or> hd k \<noteq> CHR ''0'') \<and> decimal k < 2 ^ 32 - 1
      then Some (decimal k) else None)"

fun create_property :: "TailscaleConfig \<Rightarrow> string \<Rightarrow> string \<Rightarrow> TailscaleConfig" where
  \<comment> \<open>a property that the object does not have yet takes its place in the enumeration:
      an array index after the smaller indices, any other key at the end\<close>
  "create_property [] k v = [(k, v)]"
| "create_property (p # ps) k v =
     (case array_index k of
        None \<Rightarrow> p # create_property ps k v
      | Some i \<Rightarrow>
          (case array_index (fst p) of
             None \<Rightarrow> (k, v) # p # ps
           | Some j \<Rightarrow> if j \<le> i then p # create_property ps k v else (k, v) # p # ps))"

definition set_property :: "TailscaleConfig \<Rightarrow> string \<Rightarrow> string \<Rightarrow> TailscaleConfig" where
  \<comment> \<open>the assignment \<^verbatim>\<open>config.k = v\<close>, and the step of \<^verbatim>\<open>JSON.parse\<close> for one member: a
      property that exists keeps its place and takes the value, a new one is created\<close>
  "set_property obj k v =
     (if k \<in> fst ` set obj then map (\<lambda>p. if fst p = k then (k, v) else p) obj
      else create_property obj k v)"

definition property :: "TailscaleConfig \<Rightarrow> string \<Rightarrow> string option" where
  \<comment> \<open>\<^verbatim>\<open>config.k\<close>; \<open>None\<close> is \<^verbatim>\<open>undefined\<close>\<close>
  "property obj k = map_of obj k"

definition precedes :: "string \<times> string \<Rightarrow> string \<times> string \<Rightarrow> bool" where
  \<comment> \<open>the order of enumeration: array indices ascending, before every other key\<close>
  "precedes p q =
     (case array_index (fst q) of
        None \<Rightarrow> True
      | Some j \<Rightarrow> (case array_index (fst p) of None \<Rightarrow> False | Some i \<Rightarrow> i \<le> j))"

definition is_object :: "TailscaleConfig \<Rightarrow> bool" where
  \<comment> \<open>the lists that are objects: no key twice, the properties in the order of
      enumeration\<close>
  "is_object obj \<longleftrightarrow> distinct (map fst obj) \<and> sorted_wrt precedes obj"

abbreviation dquote :: char where "dquote \<equiv> CHR 0x22"
abbreviation backslash :: char where "backslash \<equiv> CHR 0x5C"
abbreviation newline :: char where "newline \<equiv> CHR 0x0A"

definition hex_digit :: "nat \<Rightarrow> char" where
  "hex_digit n = ''0123456789abcdef'' ! (n mod 16)"

definition unicode_escape :: "nat \<Rightarrow> string" where
  "unicode_escape n =
     [backslash, CHR ''u'', hex_digit (n div 4096), hex_digit (n div 256),
      hex_digit (n div 16), hex_digit n]"

definition quote_char :: "char \<Rightarrow> string" where
  "quote_char c =
     (if c = CHR 0x08 then [backslash, CHR ''b'']
      else if c = CHR 0x09 then [backslash, CHR ''t'']
      else if c = CHR 0x0A then [backslash, CHR ''n'']
      else if c = CHR 0x0C then [backslash, CHR ''f'']
      else if c = CHR 0x0D then [backslash, CHR ''r'']
      else if c = dquote then [backslash, dquote]
      else if c = backslash then [backslash, backslash]
      else if (of_char c :: nat) < 32 then unicode_escape (of_char c)
      else [c])"

definition quoteJSONString :: "string \<Rightarrow> string" where
  "quoteJSONString s = [dquote] @ concat (map quote_char s) @ [dquote]"

definition member :: "string \<times> string \<Rightarrow> string" where
  "member kv = ''    '' @ quoteJSONString (fst kv) @ '': '' @ quoteJSONString (snd kv)"

fun join :: "string \<Rightarrow> string list \<Rightarrow> string" where
  "join sep [] = []"
| "join sep [x] = x"
| "join sep (x # y # ys) = x @ sep @ join sep (y # ys)"

definition stringify4 :: "TailscaleConfig \<Rightarrow> string" where
  \<comment> \<open>\<^verbatim>\<open>JSON.stringify(config, null, 4)\<close>: the properties in the order of enumeration, one
      on a line; an object without properties is \<^verbatim>\<open>{}\<close>\<close>
  "stringify4 obj =
     (if obj = [] then ''{}''
      else ''{'' @ [newline] @ join ('','' @ [newline]) (map member obj) @ [newline] @ ''}'')"

definition is_json_ws :: "char \<Rightarrow> bool" where
  "is_json_ws c \<longleftrightarrow> c \<in> {CHR 0x20, CHR 0x09, CHR 0x0A, CHR 0x0D}"

definition skip_ws :: "string \<Rightarrow> string" where
  "skip_ws s = dropWhile is_json_ws s"

definition hex_val :: "char \<Rightarrow> nat option" where
  "hex_val c =
     (let n = (of_char c :: nat) in
      if 48 \<le> n \<and> n \<le> 57 then Some (n - 48)
      else if 97 \<le> n \<and> n \<le> 102 then Some (n - 87)
      else if 65 \<le> n \<and> n \<le> 70 then Some (n - 55)
      else None)"

definition hex4 :: "string \<Rightarrow> nat option" where
  "hex4 s =
     (case s of
        [a, b, c, d] \<Rightarrow> do {
          x \<leftarrow> hex_val a; y \<leftarrow> hex_val b; z \<leftarrow> hex_val c; w \<leftarrow> hex_val d;
          Some (((x * 16 + y) * 16 + z) * 16 + w) }
      | _ \<Rightarrow> None)"

definition simple_escape :: "char \<Rightarrow> char option" where
  "simple_escape e =
     (if e = dquote then Some dquote
      else if e = backslash then Some backslash
      else if e = CHR ''/'' then Some CHR ''/''
      else if e = CHR ''b'' then Some CHR 0x08
      else if e = CHR ''f'' then Some CHR 0x0C
      else if e = CHR ''n'' then Some CHR 0x0A
      else if e = CHR ''r'' then Some CHR 0x0D
      else if e = CHR ''t'' then Some CHR 0x09
      else None)"

definition cons_result :: "char \<Rightarrow> (string \<times> string) option \<Rightarrow> (string \<times> string) option" where
  "cons_result c r = map_option (\<lambda>(s, rest). (c # s, rest)) r"

function parse_chars :: "string \<Rightarrow> (string \<times> string) option" where
  "parse_chars [] = None"
| "parse_chars (c # cs) =
     (if c = dquote then Some ([], cs)
      else if c = backslash then
        (case cs of
           [] \<Rightarrow> None
         | e # r \<Rightarrow>
             if e = CHR ''u'' then
               (case hex4 (take 4 r) of
                  None \<Rightarrow> None
                | Some n \<Rightarrow> if 256 \<le> n then None
                            else cons_result (char_of n) (parse_chars (drop 4 r)))
             else (case simple_escape e of
                     None \<Rightarrow> None
                   | Some d \<Rightarrow> cons_result d (parse_chars r)))
      else if (of_char c :: nat) < 32 then None
      else cons_result c (parse_chars cs))"
  by pat_completeness auto
termination
  by (relation "measure length") auto

definition parse_string :: "string \<Rightarrow> (string \<times> string) option" where
  "parse_string s = (case s of [] \<Rightarrow> None | c # cs \<Rightarrow> if c = dquote then parse_chars cs else None)"

lemma parse_chars_shorter: "parse_chars s = Some (v, r) \<Longrightarrow> length r < length s"
  by (induction s arbitrary: v r rule: parse_chars.induct)
     (fastforce simp: cons_result_def split: if_splits list.splits option.splits)+

lemma parse_string_shorter: "parse_string s = Some (v, r) \<Longrightarrow> length r < length s"
  by (auto simp: parse_string_def split: list.splits if_splits dest: parse_chars_shorter)

lemma skip_ws_shorter: "length (skip_ws s) \<le> length s"
  by (simp add: skip_ws_def length_dropWhile_le)

function parse_members :: "string \<Rightarrow> ((string \<times> string) list \<times> string) option" where
  "parse_members s =
     (case parse_string s of
        None \<Rightarrow> None
      | Some (k, s1) \<Rightarrow>
          (case lit '':'' (skip_ws s1) of
             None \<Rightarrow> None
           | Some s2 \<Rightarrow>
               (case parse_string (skip_ws s2) of
                  None \<Rightarrow> None
                | Some (v, s3) \<Rightarrow>
                    (case skip_ws s3 of
                       [] \<Rightarrow> None
                     | c # r \<Rightarrow>
                         if c = CHR ''}'' then Some ([(k, v)], r)
                         else if c = CHR '','' then
                           (case parse_members (skip_ws r) of
                              None \<Rightarrow> None
                            | Some (ms, rest) \<Rightarrow> Some ((k, v) # ms, rest))
                         else None))))"
  by pat_completeness auto
termination
proof (relation "measure length", simp, goal_cases)
  case (1 s x2 k s1 s2 x2a v s3 c r)
  have a: "length s1 < length s" using 1 parse_string_shorter by auto
  have b: "length s2 \<le> length (skip_ws s1)" using 1 lit_shorter by auto
  have c: "length s3 < length (skip_ws s2)" using 1 parse_string_shorter by auto
  have d: "length (c # r) \<le> length s3" using 1 skip_ws_shorter[of s3] by auto
  have "length (skip_ws r) \<le> length r" by (rule skip_ws_shorter)
  with a b c d skip_ws_shorter[of s1] skip_ws_shorter[of s2] show ?case by simp
qed

definition parse_object :: "string \<Rightarrow> (string \<times> string) list option" where
  \<comment> \<open>a whole text that is one object with string members: the members in order\<close>
  "parse_object text =
     (case lit ''{'' (skip_ws text) of
        None \<Rightarrow> None
      | Some s1 \<Rightarrow>
          (case (if take 1 (skip_ws s1) = ''}'' then Some ([], drop 1 (skip_ws s1))
                 else parse_members (skip_ws s1)) of
             None \<Rightarrow> None
           | Some (ms, rest) \<Rightarrow> if skip_ws rest = [] then Some ms else None))"

definition JSON_parse :: "string \<Rightarrow> TailscaleConfig option" where
  \<comment> \<open>\<^verbatim>\<open>JSON.parse(content) as TailscaleConfig\<close>: the members become properties one after
      the other, so that of a repeated key the last value counts, at the place of the
      first. The cast checks nothing. \<open>None\<close> is a SyntaxError, and also a text whose
      value is outside the objects modelled: a value that is not an object (\<^verbatim>\<open>main\<close>
      ends on it as on a SyntaxError, with code 1 after reading: it is falsy, or it has
      no \<^verbatim>\<open>tailscaleVersion\<close>), a member whose value is not a string, an escape of a code
      unit from 256 on.\<close>
  "JSON_parse content =
     (case parse_object content of
        None \<Rightarrow> None
      | Some ms \<Rightarrow> Some (foldl (\<lambda>obj (k, v). set_property obj k v) [] ms))"

definition readConfig :: "string option \<Rightarrow> TailscaleConfig option" where
  \<comment> \<open>from the content of the file at \<^verbatim>\<open>CONFIG_PATH\<close>; \<open>None\<close> is a file that cannot be
      read, and the \<^verbatim>\<open>null\<close> returned\<close>
  "readConfig file = (case file of None \<Rightarrow> None | Some content \<Rightarrow> JSON_parse content)"

definition writeConfig :: "bool \<Rightarrow> TailscaleConfig \<Rightarrow> bool \<times> string option" where
  \<comment> \<open>the argument says whether \<^verbatim>\<open>Deno.writeTextFile\<close> completes. The result is the
      boolean returned and the new content of the file, \<open>None\<close> when no write completed.\<close>
  "writeConfig completes config =
     (let content = stringify4 config
      in if completes then (True, Some (content @ [newline])) else (False, None))"

definition configText :: "TailscaleConfig \<Rightarrow> string" where
  \<comment> \<open>the text that \<^verbatim>\<open>writeConfig\<close> puts into the file\<close>
  "configText c = stringify4 c @ [newline]"

section \<open>The workflow\<close>

datatype event =
    ReadConfig
  | FetchLatestVersion
  | FetchSHA256 string
  | WriteConfig TailscaleConfig
  | BuildPlugin

text \<open>
  One run: the code the process exits with, the calls \<^verbatim>\<open>main\<close> made, in order, and the
  content that a completed \<^verbatim>\<open>Deno.writeTextFile\<close> left in the file (\<open>None\<close> when the
  run completed no write).
\<close>

record outcome =
  exitCode :: nat
  events :: "event list"
  fileWritten :: "string option"

definition truthy :: "string option \<Rightarrow> string option" where
  \<comment> \<open>the test \<^verbatim>\<open>if (!x) ... exit\<close> on a \<^verbatim>\<open>string | null\<close>: \<^verbatim>\<open>null\<close> and the empty string are
      falsy (\<open>None\<close>); any other string passes\<close>
  "truthy x = (case x of None \<Rightarrow> None | Some [] \<Rightarrow> None | Some (c # cs) \<Rightarrow> Some (c # cs))"

definition buildPlugin :: "env \<Rightarrow> bool" where
  "buildPlugin e = (case build e of BuildThrows \<Rightarrow> False | BuildExit code \<Rightarrow> code = 0)"

abbreviation updated :: "TailscaleConfig \<Rightarrow> string \<Rightarrow> string \<Rightarrow> string \<Rightarrow> TailscaleConfig" where
  "updated config date identifier sha256 \<equiv>
     set_property (set_property (set_property config ''version'' date)
       ''tailscaleVersion'' identifier) ''tailscaleSHA256'' sha256"

definition main_with ::
  "(env \<Rightarrow> string option) \<Rightarrow> (env \<Rightarrow> string \<Rightarrow> string option) \<Rightarrow> env \<Rightarrow> outcome" where
  \<comment> \<open>\<^verbatim>\<open>main\<close>, the same in both revisions, over the two functions in which they differ.
      \<^verbatim>\<open>Deno.exit(n)\<close> ends the run; a run that reaches the end of \<^verbatim>\<open>main\<close> exits with 0.
      On an object without \<^verbatim>\<open>tailscaleVersion\<close> the call \<^verbatim>\<open>extractVersion(undefined)\<close>
      throws a TypeError, which nothing catches: the process ends with code 1. The three
      assignments to \<^verbatim>\<open>config\<close> are \<open>updated\<close>.\<close>
  "main_with fetchLatest fetchSha e =
     (case readConfig (configFile e) of
        None \<Rightarrow> \<lparr>exitCode = 1, events = [ReadConfig], fileWritten = None\<rparr>
      | Some config \<Rightarrow>
      (case property config ''tailscaleVersion'' of
        None \<Rightarrow> \<lparr>exitCode = 1, events = [ReadConfig], fileWritten = None\<rparr>
      | Some identifier \<Rightarrow>
          let currentVersion = extractVersion identifier in
          (case truthy (fetchLatest e) of
             None \<Rightarrow>
               \<lparr>exitCode = 1, events = [ReadConfig, FetchLatestVersion], fileWritten = None\<rparr>
           | Some latestVersion \<Rightarrow>
               if currentVersion = latestVersion
               then \<lparr>exitCode = 0, events = [ReadConfig, FetchLatestVersion],
                     fileWritten = None\<rparr>
               else
                 let amd64Package = ''tailscale_'' @ latestVersion @ ''_amd64.tgz'' in
                 (case truthy (fetchSha e amd64Package) of
                    None \<Rightarrow>
                      \<lparr>exitCode = 1,
                       events = [ReadConfig, FetchLatestVersion, FetchSHA256 amd64Package],
                       fileWritten = None\<rparr>
                  | Some sha256 \<Rightarrow>
                      let config' = updated config (getCurrentDate (now e))
                                      (''tailscale_'' @ latestVersion @ ''_amd64'') sha256;
                          (written, file') = writeConfig (writeSucceeds e) config'
                      in if \<not> written
                         then \<lparr>exitCode = 1,
                               events = [ReadConfig, FetchLatestVersion,
                                         FetchSHA256 amd64Package, WriteConfig config'],
                               fileWritten = file'\<rparr>
                         else if \<not> buildPlugin e
                         then \<lparr>exitCode = 1,
                               events = [ReadConfig, FetchLatestVersion,
                                         FetchSHA256 amd64Package, WriteConfig config',
                                         BuildPlugin],
                               fileWritten = file'\<rparr>
                         else \<lparr>exitCode = 0,
                               events = [ReadConfig, FetchLatestVersion,
                                         FetchSHA256 amd64Package, WriteConfig config',
                                         BuildPlugin],
                               fileWritten = file'\<rparr>))))"

definition main :: "env \<Rightarrow> outcome" where
  \<comment> \<open>\<^verbatim>\<open>src/update.ts\<close>\<close>
  "main = main_with fetchLatestTailscaleVersion fetchSHA256"

definition main_003 :: "env \<Rightarrow> outcome" where
  \<comment> \<open>\<^verbatim>\<open>part_003\<close>\<close>
  "main_003 = main_with fetchLatestTailscaleVersion_003 fetchSHA256_003"

fun is_write :: "event \<Rightarrow> bool" where
  \<comment> \<open>the calls of \<^verbatim>\<open>writeConfig\<close> among the events\<close>
  "is_write (WriteConfig c) = True"
| "is_write ev = False"

section \<open>An example run\<close>

text \<open>
  A stored record, and an environment in which the listing offers a newer version and
  every step succeeds. The theorems below are instantiated at it and at variations of it.
\<close>

definition exampleConfig :: TailscaleConfig where
  "exampleConfig =
     [(''name'', ''tailscale''), (''author'', ''Derek Kaser''),
      (''githubRepository'', ''louislam/unraid-6.12-tailscale''), (''version'', ''2025.10.01''),
      (''tailscaleVersion'', ''tailscale_1.90.6_amd64''), (''tailscaleSHA256'', ''0f''),
      (''packageVersion'', ''1.0.0''), (''packageSHA256'', ''0e''),
      (''pluginDirectory'', ''/usr/local/emhttp/plugins/tailscale''),
      (''configDirectory'', ''/boot/config/plugins/tailscale''), (''minver'', ''6.12.0'')]"

definition exampleEnv :: env where
  "exampleEnv =
     \<lparr>configFile = Some (configText exampleConfig),
      stablePage = Reply True ''tailscale_1.90.6_amd64.tgz tailscale_1.92.0_amd64.tgz'',
      githubLatest = Reply True (Some ''v1.92.0''),
      sha256File = (\<lambda>p. Reply True (''0123456789abcdef0123456789abcdef0123456789abcdef0123456789abcdef  '' @ p)),
      stablePageAgain = Rejected,
      now = \<lparr>fullYear = 2026, month0 = 10, dayOfMonth = 3\<rparr>,
      writeSucceeds = True,
      build = BuildExit 0\<rparr>"

definition exampleUpdated :: TailscaleConfig where
  "exampleUpdated =
     [(''name'', ''tailscale''), (''author'', ''Derek Kaser''),
      (''githubRepository'', ''louislam/unraid-6.12-tailscale''), (''version'', ''2026.11.03''),
      (''tailscaleVersion'', ''tailscale_1.92.0_amd64''),
      (''tailscaleSHA256'', ''0123456789abcdef0123456789abcdef0123456789abcdef0123456789abcdef''),
      (''packageVersion'', ''1.0.0''), (''packageSHA256'', ''0e''),
      (''pluginDirectory'', ''/usr/local/emhttp/plugins/tailscale''),
      (''configDirectory'', ''/boot/config/plugins/tailscale''), (''minver'', ''6.12.0'')]"

definition is_date_format :: "string \<Rightarrow> bool" where
  \<comment> \<open>the format \<^verbatim>\<open>YYYY.MM.DD\<close> in the words of the specification: four digits, a dot, two
      digits, a dot, two digits\<close>
  "is_date_format s \<longleftrightarrow>
     length s = 10 \<and> list_all is_digit (take 4 s) \<and> s ! 4 = CHR ''.''
     \<and> list_all is_digit (take 2 (drop 5 s)) \<and> s ! 7 = CHR ''.''
     \<and> list_all is_digit (drop 8 s)"

definition digit_run :: "string \<Rightarrow> bool" where
  "digit_run d \<longleftrightarrow> d \<noteq> [] \<and> list_all is_digit d"

definition occurrence :: "string \<Rightarrow> string \<Rightarrow> string \<Rightarrow> bool" where
  \<comment> \<open>\<open>occurrence pre v s\<close>: after the prefix \<open>pre\<close>, the text \<open>s\<close> goes on with a substring
      of the form \<^verbatim>\<open>tailscale_<digits>.<digits>.<digits>_amd64\<close>, whose version part is \<open>v\<close>\<close>
  "occurrence pre v s \<longleftrightarrow>
     (\<exists>a b c post. digit_run a \<and> digit_run b \<and> digit_run c
        \<and> v = a @ ''.'' @ b @ ''.'' @ c
        \<and> s = pre @ ''tailscale_'' @ v @ ''_amd64'' @ post)"

definition version_shape :: "string \<Rightarrow> bool" where
  \<comment> \<open>a text of the form \<^verbatim>\<open><digits>.<digits>.<digits>\<close>\<close>
  "version_shape v \<longleftrightarrow>
     (\<exists>a b c. digit_run a \<and> digit_run b \<and> digit_run c \<and> v = a @ ''.'' @ b @ ''.'' @ c)"

text \<open>A stored file that is one object with one member, \<^verbatim>\<open>tailscaleVersion\<close>, whose value
  is the string \<^verbatim>\<open>garbage\<close>.\<close>

definition garbageFile :: string where
  "garbageFile =
     ''{'' @ [dquote] @ ''tailscaleVersion'' @ [dquote] @ '':'' @ [dquote] @ ''garbage'' @ [dquote] @ ''}''"

definition markupEnv :: env where
  "markupEnv = exampleEnv\<lparr>sha256File := (\<lambda>p. Reply True ''<html>Service unavailable</html>'')\<rparr>"

section \<open>The dotted-numeric ordering\<close>

definition components :: "string \<Rightarrow> nat list" where
  \<comment> \<open>the components of a dotted version, read as integers\<close>
  "components v = map decimal (split_on CHR ''.'' v)"

fun dotted_le :: "nat list \<Rightarrow> nat list \<Rightarrow> bool" where
  \<comment> \<open>the ordering in the words of the specification: the components are compared from
      the left as integers, and a component that is missing at the end counts as 0\<close>
  "dotted_le [] ys = True"
| "dotted_le (x # xs) [] = (x = 0 \<and> dotted_le xs [])"
| "dotted_le (x # xs) (y # ys) = (x < y \<or> (x = y \<and> dotted_le xs ys))"

definition version_le :: "string \<Rightarrow> string \<Rightarrow> bool" where
  "version_le a b = dotted_le (components a) (components b)"

definition exact_version :: "string \<Rightarrow> bool" where
  "exact_version v \<longleftrightarrow> version_shape v \<and> (\<forall>n \<in> set (components v). n < 2 ^ 53)"

section \<open>Writing the configuration and reading it back\<close>


lemma hex_val_nth: 
  assumes "k < 16"
  shows "hex_val (''0123456789abcdef'' ! k) = Some k"
proof -
  from assms have "k = 0 \<or> k = 1 \<or> k = 2 \<or> k = 3 \<or> k = 4 \<or> k = 5 \<or> k = 6 \<or> k = 7
    \<or> k = 8 \<or> k = 9 \<or> k = 10 \<or> k = 11 \<or> k = 12 \<or> k = 13 \<or> k = 14 \<or> k = 15"
    by arith
  then show ?thesis
    by (elim disjE) (simp_all add: hex_val_def)
qed

lemma hex_val_hex_digit: "hex_val (hex_digit n) = Some (n mod 16)"
  unfolding hex_digit_def by (rule hex_val_nth) simp

lemma low_byte_digits:
  fixes n :: nat
  assumes "n < 256"
  shows "n div 16 mod 16 * 16 + n mod 16 = n"
proof -
  have "n div 16 < 16" using assms by (simp add: less_mult_imp_div_less)
  then have "n div 16 mod 16 = n div 16" by simp
  then show ?thesis by simp
qed

lemma hex4_unicode_escape:
  assumes "n < 256"
  shows "hex4 (take 4 (drop 2 (unicode_escape n) @ rest)) = Some n"
proof -
  have a: "n div 4096 mod 16 = 0" "n div 256 mod 16 = 0" using assms by auto
  show ?thesis
    by (simp add: unicode_escape_def hex4_def hex_val_hex_digit a low_byte_digits[OF assms])
qed

lemma parse_chars_unicode:
  assumes "hex4 (take 4 xs) = Some n" and "n < 256"
  shows "parse_chars (backslash # CHR ''u'' # xs) = cons_result (char_of n) (parse_chars (drop 4 xs))"
  using assms by simp

lemma parse_chars_quote_char:
  "parse_chars (quote_char c @ rest) = cons_result c (parse_chars rest)"
proof -
  consider (tab) "c \<in> {CHR 0x08, CHR 0x09, CHR 0x0A, CHR 0x0C, CHR 0x0D, dquote, backslash}"
    | (ctl) "c \<notin> {CHR 0x08, CHR 0x09, CHR 0x0A, CHR 0x0C, CHR 0x0D, dquote, backslash}" "(of_char c :: nat) < 32"
    | (plain) "c \<notin> {CHR 0x08, CHR 0x09, CHR 0x0A, CHR 0x0C, CHR 0x0D, dquote, backslash}" "\<not> (of_char c :: nat) < 32"
    by blast
  then show ?thesis
  proof cases
    case tab
    then show ?thesis by (auto simp: quote_char_def simple_escape_def)
  next
    case ctl
    define xs where "xs = drop 2 (unicode_escape (of_char c)) @ rest"
    have n: "(of_char c :: nat) < 256" using ctl by simp
    have q: "quote_char c @ rest = backslash # CHR ''u'' # xs"
      using ctl by (simp add: quote_char_def unicode_escape_def xs_def)
    have d: "drop 4 xs = rest"
      by (simp add: unicode_escape_def xs_def)
    have h: "hex4 (take 4 xs) = Some (of_char c)"
      unfolding xs_def by (rule hex4_unicode_escape[OF n])
    show ?thesis
      unfolding q using parse_chars_unicode[OF h n] d by simp
  next
    case plain
    then show ?thesis by (simp add: quote_char_def)
  qed
qed

lemma parse_chars_quoted:
  "parse_chars (concat (map quote_char s) @ dquote # rest) = Some (s, rest)"
  by (induction s) (simp_all add: parse_chars_quote_char cons_result_def)

lemma parse_string_quoteJSONString:
  "parse_string (quoteJSONString s @ rest) = Some (s, rest)"
  by (simp add: parse_string_def quoteJSONString_def parse_chars_quoted)


declare parse_members.simps [simp del]

lemma skip_ws_quoted: "skip_ws (quoteJSONString s @ r) = quoteJSONString s @ r"
  by (simp add: skip_ws_def quoteJSONString_def is_json_ws_def)

lemma skip_ws_blank: "is_json_ws c \<Longrightarrow> skip_ws (c # r) = skip_ws r"
  by (simp add: skip_ws_def)

lemma skip_ws_stop: "\<not> is_json_ws c \<Longrightarrow> skip_ws (c # r) = c # r"
  by (simp add: skip_ws_def)

lemma parse_members_member:
  "parse_members (quoteJSONString k @ CHR '':'' # CHR '' '' # quoteJSONString v @ t) =
     (case skip_ws t of
        [] \<Rightarrow> None
      | c # r \<Rightarrow>
          if c = CHR ''}'' then Some ([(k, v)], r)
          else if c = CHR '','' then
            (case parse_members (skip_ws r) of
               None \<Rightarrow> None
             | Some (ms, rest) \<Rightarrow> Some ((k, v) # ms, rest))
          else None)"
  by (subst parse_members.simps)
     (simp add: parse_string_quoteJSONString skip_ws_quoted lit_def skip_ws_blank skip_ws_stop
        is_json_ws_def)

lemma skip_ws_layout:
  "skip_ws (newline # r) = skip_ws r"
  "skip_ws (CHR '' '' # r) = skip_ws r"
  "skip_ws (CHR ''}'' # r) = CHR ''}'' # r"
  "skip_ws (CHR '','' # r) = CHR '','' # r"
  "skip_ws (CHR ''{'' # r) = CHR ''{'' # r"
  "skip_ws [] = []"
  by (simp_all add: skip_ws_def is_json_ws_def)

lemma skip_ws_member:
  "skip_ws (member kv @ r) =
     quoteJSONString (fst kv) @ CHR '':'' # CHR '' '' # quoteJSONString (snd kv) @ r"
  by (simp add: member_def skip_ws_layout skip_ws_quoted)

lemma parse_members_text:
  "kvs \<noteq> [] \<Longrightarrow>
   parse_members (skip_ws (join ('','' @ [newline]) (map member kvs) @ newline # CHR ''}'' # rest))
     = Some (kvs, rest)"
proof (induction kvs rule: list_nonempty_induct)
  case (single kv)
  show ?case
    by (cases kv) (simp add: skip_ws_member parse_members_member skip_ws_layout)
next
  case (cons kv kvs)
  then obtain kv' kvs' where k: "kvs = kv' # kvs'" by (cases kvs) auto
  have j: "join ('','' @ [newline]) (map member (kv # kvs))
             = member kv @ '','' @ [newline] @ join ('','' @ [newline]) (map member kvs)"
    by (simp add: k)
  show ?case
    unfolding j using cons.IH
    by (cases kv) (simp add: skip_ws_member parse_members_member skip_ws_layout)
qed

text \<open>Objects: creating and setting properties keeps them objects.\<close>

lemma create_property_append:
  "sorted_wrt precedes (obj @ [(k, v)]) \<Longrightarrow> create_property obj k v = obj @ [(k, v)]"
proof (induction obj)
  case Nil
  show ?case by simp
next
  case (Cons p ps)
  from Cons.prems have s: "sorted_wrt precedes (ps @ [(k, v)])" and h: "precedes p (k, v)"
    by (simp_all add: sorted_wrt_append)
  have ih: "create_property ps k v = ps @ [(k, v)]" using Cons.IH[OF s] .
  show ?case
    using h ih by (simp add: precedes_def split: option.splits)
qed

lemma create_property_plain:
  "array_index k = None \<Longrightarrow> create_property obj k v = obj @ [(k, v)]"
  by (induction obj) simp_all

lemma set_create_property: "set (create_property obj k v) = insert (k, v) (set obj)"
  by (induction obj) (auto split: option.splits)

lemma distinct_create_property:
  "k \<notin> fst ` set obj \<Longrightarrow> distinct (map fst obj) \<Longrightarrow> distinct (map fst (create_property obj k v))"
proof (induction obj)
  case Nil
  show ?case by simp
next
  case (Cons p ps)
  then have ih: "distinct (map fst (create_property ps k v))" by simp
  have n: "fst p \<notin> fst ` set (create_property ps k v)"
    using Cons.prems by (auto simp: set_create_property)
  show ?case
    using Cons.prems ih n by (auto split: option.splits)
qed

lemma sorted_create_property:
  "sorted_wrt precedes obj \<Longrightarrow> sorted_wrt precedes (create_property obj k v)"
proof (induction obj)
  case Nil
  show ?case by simp
next
  case (Cons p ps)
  then have ih: "sorted_wrt precedes (create_property ps k v)"
    and a: "\<forall>x \<in> set ps. precedes p x" and s: "sorted_wrt precedes ps" by simp_all
  show ?case
  proof (cases "array_index k")
    case None
    then have "precedes p (k, v)" by (simp add: precedes_def)
    then show ?thesis using None ih a by (simp add: set_create_property)
  next
    case (Some i)
    note k = this
    show ?thesis
    proof (cases "array_index (fst p)")
      case None
      have "\<forall>x \<in> set (p # ps). precedes (k, v) x"
        using a None by (auto simp: precedes_def split: option.splits)
      then show ?thesis using k None a s by simp
    next
      case (Some j)
      show ?thesis
      proof (cases "j \<le> i")
        case True
        then have "precedes p (k, v)" using k Some by (simp add: precedes_def)
        then show ?thesis using k Some True ih a by (simp add: set_create_property)
      next
        case False
        have "\<forall>x \<in> set (p # ps). precedes (k, v) x"
          using a k Some False by (auto simp: precedes_def split: option.splits)
        then show ?thesis using k Some False a s by simp
      qed
    qed
  qed
qed

lemma precedes_replace:
  "precedes (if fst x = k then (k, v) else x) (if fst y = k then (k, v) else y) = precedes x y"
  by (auto simp: precedes_def split: option.splits)

lemma is_object_set_property: "is_object obj \<Longrightarrow> is_object (set_property obj k v)"
proof (cases "k \<in> fst ` set obj")
  case True
  assume o: "is_object obj"
  let ?f = "\<lambda>p. if fst p = k then (k, v) else p"
  have f: "map (fst \<circ> ?f) obj = map fst obj" by (induction obj) auto
  have s: "sorted_wrt precedes (map ?f obj) = sorted_wrt precedes obj"
    by (simp add: sorted_wrt_map precedes_replace)
  have "distinct (map fst (map ?f obj))" "sorted_wrt precedes (map ?f obj)"
    using o by (simp_all add: is_object_def f s del: sorted_wrt_map)
  then show ?thesis
    using True by (simp add: is_object_def set_property_def del: map_map)
next
  case False
  assume "is_object obj"
  then show ?thesis
    using False by (simp add: is_object_def set_property_def distinct_create_property
        sorted_create_property)
qed

lemma is_object_Nil: "is_object []"
  by (simp add: is_object_def)

lemma is_object_foldl:
  "is_object acc \<Longrightarrow> is_object (foldl (\<lambda>obj (k, v). set_property obj k v) acc ms)"
  by (induction ms arbitrary: acc) (auto simp: is_object_set_property)

lemma foldl_set_property:
  "is_object (acc @ ms) \<Longrightarrow> foldl (\<lambda>obj (k, v). set_property obj k v) acc ms = acc @ ms"
proof (induction ms arbitrary: acc)
  case Nil
  show ?case by simp
next
  case (Cons m ms)
  obtain k v where m: "m = (k, v)" by (cases m)
  have n: "k \<notin> fst ` set acc"
    using Cons.prems by (auto simp: is_object_def m)
  have s: "sorted_wrt precedes (acc @ [(k, v)])"
    using Cons.prems by (auto simp: is_object_def m sorted_wrt_append)
  have c: "set_property acc k v = acc @ [(k, v)]"
    using n create_property_append[OF s] by (simp add: set_property_def)
  have "is_object ((acc @ [(k, v)]) @ ms)" using Cons.prems by (simp add: m)
  from Cons.IH[OF this] show ?case by (simp add: m c)
qed

lemma map_of_replace_other:
  "k' \<noteq> k \<Longrightarrow> map_of (map (\<lambda>p. if fst p = k then (k, v) else p) obj) k' = map_of obj k'"
  by (induction obj) auto

lemma map_of_replace_same:
  "k \<in> fst ` set obj \<Longrightarrow> map_of (map (\<lambda>p. if fst p = k then (k, v) else p) obj) k = Some v"
proof (induction obj)
  case Nil
  then show ?case by simp
next
  case (Cons a obj)
  show ?case
  proof (cases "fst a = k")
    case True
    then show ?thesis by simp
  next
    case False
    then have "k \<in> fst ` set obj" using Cons.prems by auto
    from Cons.IH[OF this] show ?thesis using False by auto
  qed
qed

lemma map_of_create_property:
  "k \<notin> fst ` set obj \<Longrightarrow>
   map_of (create_property obj k v) k' = (if k' = k then Some v else map_of obj k')"
  by (induction obj) (auto split: option.splits)

lemma property_set_property:
  "property (set_property obj k v) k' = (if k' = k then Some v else property obj k')"
  by (simp add: property_def set_property_def map_of_replace_other map_of_replace_same
      map_of_create_property)

lemma take1_members:
  "kvs \<noteq> [] \<Longrightarrow> take 1 (skip_ws (join ('','' @ [newline]) (map member kvs) @ r)) \<noteq> ''}''"
proof (cases kvs)
  case Nil
  assume "kvs \<noteq> []" then show ?thesis using Nil by simp
next
  case (Cons kv kvs')
  show ?thesis
    by (cases kvs') (simp_all add: Cons skip_ws_member quoteJSONString_def)
qed

lemma parse_object_stringify4:
  "parse_object (stringify4 obj @ [newline]) = Some obj"
proof (cases "obj = []")
  case True
  then show ?thesis
    by (simp add: parse_object_def stringify4_def lit_def skip_ws_layout)
next
  case False
  show ?thesis
    using parse_members_text[OF False, of "[newline]"] take1_members[OF False] False
    by (simp add: parse_object_def stringify4_def lit_def skip_ws_layout)
qed

lemma JSON_parse_configText: "is_object c \<Longrightarrow> JSON_parse (configText c) = Some c"
  using foldl_set_property[of "[]" c]
  by (simp add: JSON_parse_def configText_def parse_object_stringify4)

lemma JSON_parse_is_object: "JSON_parse content = Some obj \<Longrightarrow> is_object obj"
  using is_object_foldl[OF is_object_Nil]
  by (auto simp: JSON_parse_def split: option.splits)

lemma readConfig_configText: "is_object c \<Longrightarrow> readConfig (Some (configText c)) = Some c"
  by (simp add: readConfig_def JSON_parse_configText)

lemma readConfig_is_object: "readConfig file = Some c \<Longrightarrow> is_object c"
  by (auto simp: readConfig_def split: option.splits dest: JSON_parse_is_object)

lemma is_object_updated: "is_object c \<Longrightarrow> is_object (updated c d i h)"
  by (intro is_object_set_property)

lemma not_array_index: "k \<noteq> [] \<Longrightarrow> \<not> is_digit (hd k) \<Longrightarrow> array_index k = None"
  by (cases k) (simp_all add: array_index_def)

lemma interface_object:
  "is_object
     [(''name'', v1), (''author'', v2), (''githubRepository'', v3), (''version'', v4),
      (''tailscaleVersion'', v5), (''tailscaleSHA256'', v6), (''packageVersion'', v7),
      (''packageSHA256'', v8), (''pluginDirectory'', v9), (''configDirectory'', v10),
      (''minver'', v11)]"
  by (simp add: is_object_def precedes_def not_array_index is_digit_def)

lemma example_object: "is_object exampleConfig"
  unfolding exampleConfig_def by (rule interface_object)

lemma exampleUpdated_object: "is_object exampleUpdated"
  unfolding exampleUpdated_def by (rule interface_object)

text \<open>
  Claim C9. A record written by \<^verbatim>\<open>writeConfig\<close> (the text of \<^verbatim>\<open>JSON.stringify\<close> with an
  indentation of four blanks, and a newline after it) and read back by \<^verbatim>\<open>readConfig\<close>
  is the record that was written, equal in every property. This holds of every object,
  whatever properties it has; and the eleven fields of the interface, with any values,
  are an object.
\<close>

theorem write_read_roundtrip:
  "(is_object c \<longrightarrow>
      writeConfig True c = (True, Some (stringify4 c @ [newline]))
      \<and> readConfig (Some (stringify4 c @ [newline])) = Some c)
   \<and> (let r = [(''name'', v1), (''author'', v2), (''githubRepository'', v3), (''version'', v4),
      (''tailscaleVersion'', v5), (''tailscaleSHA256'', v6), (''packageVersion'', v7),
      (''packageSHA256'', v8), (''pluginDirectory'', v9), (''configDirectory'', v10),
      (''minver'', v11)]
      in is_object r
         \<and> writeConfig True r = (True, Some (stringify4 r @ [newline]))
         \<and> readConfig (Some (stringify4 r @ [newline])) = Some r)"
proof -
  have a: "writeConfig True c = (True, Some (stringify4 c @ [newline]))
           \<and> readConfig (Some (stringify4 c @ [newline])) = Some c" if "is_object c" for c
    using readConfig_configText[OF that] by (simp add: writeConfig_def configText_def)
  show ?thesis
    using a a[OF interface_object] interface_object by (simp add: Let_def)
qed

theorem write_read_roundtrip_witness:
  "is_object exampleConfig
   \<and> writeConfig True exampleConfig = (True, Some (stringify4 exampleConfig @ [newline]))
   \<and> readConfig (Some (stringify4 exampleConfig @ [newline])) = Some exampleConfig"
  using write_read_roundtrip[THEN conjunct1, of exampleConfig] example_object by simp

section \<open>Evaluating the example\<close>

declare matchAll_tgz.simps [simp del]

lemmas scan_defs = matchTgzAt_def matchAmd64At_def version3_def digits1_def lit_def is_digit_def
lemmas compare_defs = compareVersions_def compareVersions_003_def Number_def toDouble_def
  decimal_def digit_val_def nth_opt_def is_digit_def or_zero_def numeral_3_eq_3

lemma example_matches:
  "matchAll_tgz ''tailscale_1.90.6_amd64.tgz tailscale_1.92.0_amd64.tgz'' = [''1.90.6'', ''1.92.0'']"
  by (simp add: scan_defs matchAll_tgz.simps)

lemma example_latest: "fetchLatestTailscaleVersion exampleEnv = Some ''1.92.0''"
  by (simp add: fetchLatestTailscaleVersion_def fetchLatestWith_def exampleEnv_def latestOfListing_def
      example_matches unique_def sort_with_def compare_defs)

lemma example_latest_003: "fetchLatestTailscaleVersion_003 exampleEnv = Some ''1.92.0''"
  by (simp add: fetchLatestTailscaleVersion_003_def fetchLatestWith_def exampleEnv_def latestOfListing_def
      example_matches unique_def sort_with_def compare_defs)

lemma example_identifier:
  "property exampleConfig ''tailscaleVersion'' = Some ''tailscale_1.90.6_amd64''"
  by (simp add: property_def exampleConfig_def)

lemma example_current: "extractVersion ''tailscale_1.90.6_amd64'' = ''1.90.6''"
  by (simp add: extractVersion_def scan_defs)

lemma example_sha: "fetchSHA256 exampleEnv ''tailscale_1.92.0_amd64.tgz'' = Some ''0123456789abcdef0123456789abcdef0123456789abcdef0123456789abcdef''"
  by (simp add: fetchSHA256_def exampleEnv_def first_field_def trim_def is_space_def)

lemma example_sha_003: "fetchSHA256_003 exampleEnv ''tailscale_1.92.0_amd64.tgz'' = Some ''0123456789abcdef0123456789abcdef0123456789abcdef0123456789abcdef''"
  by (simp add: fetchSHA256_003_def exampleEnv_def first_field_def trim_def is_space_def is_hex_def Let_def)

section \<open>The runs of the workflow\<close>

lemma truthy_Some: "truthy x = Some v \<longleftrightarrow> x = Some v \<and> v \<noteq> []"
  by (auto simp: truthy_def split: option.splits list.splits)

lemma truthy_None: "truthy x = None \<longleftrightarrow> x = None \<or> x = Some []"
  by (auto simp: truthy_def split: option.splits list.splits)

text \<open>The ways a run of \<^verbatim>\<open>main\<close> can go.\<close>

lemma main_with_unreadable:
  "readConfig (configFile e) = None \<Longrightarrow>
   main_with fetchLatest fetchSha e =
     \<lparr>exitCode = 1, events = [ReadConfig], fileWritten = None\<rparr>"
  by (simp add: main_with_def)

lemma main_with_no_identifier:
  "readConfig (configFile e) = Some config \<Longrightarrow> property config ''tailscaleVersion'' = None \<Longrightarrow>
   main_with fetchLatest fetchSha e =
     \<lparr>exitCode = 1, events = [ReadConfig], fileWritten = None\<rparr>"
  by (simp add: main_with_def)

lemma main_with_no_version:
  "readConfig (configFile e) = Some config \<Longrightarrow>
   property config ''tailscaleVersion'' = Some identifier \<Longrightarrow>
   truthy (fetchLatest e) = None \<Longrightarrow>
   main_with fetchLatest fetchSha e =
     \<lparr>exitCode = 1, events = [ReadConfig, FetchLatestVersion], fileWritten = None\<rparr>"
  by (simp add: main_with_def)

lemma main_with_up_to_date:
  "readConfig (configFile e) = Some config \<Longrightarrow>
   property config ''tailscaleVersion'' = Some identifier \<Longrightarrow>
   truthy (fetchLatest e) = Some latestVersion \<Longrightarrow>
   extractVersion identifier = latestVersion \<Longrightarrow>
   main_with fetchLatest fetchSha e =
     \<lparr>exitCode = 0, events = [ReadConfig, FetchLatestVersion], fileWritten = None\<rparr>"
  by (simp add: main_with_def)

lemma main_with_no_checksum:
  "readConfig (configFile e) = Some config \<Longrightarrow>
   property config ''tailscaleVersion'' = Some identifier \<Longrightarrow>
   truthy (fetchLatest e) = Some latestVersion \<Longrightarrow>
   extractVersion identifier \<noteq> latestVersion \<Longrightarrow>
   truthy (fetchSha e (''tailscale_'' @ latestVersion @ ''_amd64.tgz'')) = None \<Longrightarrow>
   main_with fetchLatest fetchSha e =
     \<lparr>exitCode = 1,
      events = [ReadConfig, FetchLatestVersion,
                FetchSHA256 (''tailscale_'' @ latestVersion @ ''_amd64.tgz'')],
      fileWritten = None\<rparr>"
  by (simp add: main_with_def)

lemma main_with_update:
  "readConfig (configFile e) = Some config \<Longrightarrow>
   property config ''tailscaleVersion'' = Some identifier \<Longrightarrow>
   truthy (fetchLatest e) = Some latestVersion \<Longrightarrow>
   extractVersion identifier \<noteq> latestVersion \<Longrightarrow>
   truthy (fetchSha e (''tailscale_'' @ latestVersion @ ''_amd64.tgz'')) = Some sha256 \<Longrightarrow>
   config' = updated config (getCurrentDate (now e))
               (''tailscale_'' @ latestVersion @ ''_amd64'') sha256 \<Longrightarrow>
   main_with fetchLatest fetchSha e =
     \<lparr>exitCode = (if writeSucceeds e \<and> buildPlugin e then 0 else 1),
      events = [ReadConfig, FetchLatestVersion,
                FetchSHA256 (''tailscale_'' @ latestVersion @ ''_amd64.tgz''),
                WriteConfig config'] @ (if writeSucceeds e then [BuildPlugin] else []),
      fileWritten = (if writeSucceeds e then Some (configText config') else None)\<rparr>"
  by (simp add: main_with_def writeConfig_def configText_def Let_def)

lemma fetchLatestWith_env:
  "stablePage e' = stablePage e \<Longrightarrow> githubLatest e' = githubLatest e \<Longrightarrow>
   fetchLatestWith cmp e' = fetchLatestWith cmp e"
  by (simp add: fetchLatestWith_def fetchLatestVersionFromGitHub_def split: reply.splits)

lemma fetchSHA256_env:
  "sha256File e' = sha256File e \<Longrightarrow> stablePageAgain e' = stablePageAgain e \<Longrightarrow>
   fetchSHA256 e' p = fetchSHA256 e p"
  by (simp add: fetchSHA256_def split: reply.splits)

lemma fetchSHA256_003_env:
  "sha256File e' = sha256File e \<Longrightarrow> fetchSHA256_003 e' p = fetchSHA256_003 e p"
  by (simp add: fetchSHA256_003_def)

lemma example_read: "readConfig (configFile exampleEnv) = Some exampleConfig"
  by (simp add: exampleEnv_def readConfig_configText example_object)

lemma example_date: "getCurrentDate (now exampleEnv) = ''2026.11.03''"
  by (simp add: exampleEnv_def getCurrentDate_def String_int_def String_nat.simps padStart_def
      digit_char_def)

lemma exampleUpdated_eq:
  "updated exampleConfig (getCurrentDate (now exampleEnv)) (''tailscale_'' @ ''1.92.0'' @ ''_amd64'')
     ''0123456789abcdef0123456789abcdef0123456789abcdef0123456789abcdef'' = exampleUpdated"
  by (simp add: exampleUpdated_def exampleConfig_def set_property_def example_date)

lemma example_run:
  "main exampleEnv =
     \<lparr>exitCode = 0,
      events = [ReadConfig, FetchLatestVersion, FetchSHA256 ''tailscale_1.92.0_amd64.tgz'',
                WriteConfig exampleUpdated, BuildPlugin],
      fileWritten = Some (configText exampleUpdated)\<rparr>"
proof -
  have l: "truthy (fetchLatestTailscaleVersion exampleEnv) = Some ''1.92.0''"
    by (simp add: example_latest truthy_def)
  have d: "extractVersion ''tailscale_1.90.6_amd64'' \<noteq> ''1.92.0''"
    by (simp add: example_current)
  have s: "truthy (fetchSHA256 exampleEnv (''tailscale_'' @ ''1.92.0'' @ ''_amd64.tgz'')) =
             Some ''0123456789abcdef0123456789abcdef0123456789abcdef0123456789abcdef''"
    using example_sha by (simp add: truthy_def)
  have "main_with fetchLatestTailscaleVersion fetchSHA256 exampleEnv = 
     \<lparr>exitCode = (if writeSucceeds exampleEnv \<and> buildPlugin exampleEnv then 0 else 1),
      events = [ReadConfig, FetchLatestVersion,
                FetchSHA256 (''tailscale_'' @ ''1.92.0'' @ ''_amd64.tgz''),
                WriteConfig exampleUpdated] @ (if writeSucceeds exampleEnv then [BuildPlugin] else []),
      fileWritten = (if writeSucceeds exampleEnv then Some (configText exampleUpdated) else None)\<rparr>"
    using example_read example_identifier l d s exampleUpdated_eq[symmetric]
    by (rule main_with_update)
  then show ?thesis
    by (simp add: main_def exampleEnv_def buildPlugin_def)
qed

text \<open>
  Claim C8. When the build exits with a code other than 0 after the file has been
  rewritten, the run exits with 1; the write before the build is the only one, the
  build is the last call, and the file holds the text of the new record, which reads
  back as that record, with the new \<open>version\<close>, \<open>tailscaleVersion\<close> and \<open>tailscaleSHA256\<close>.
  The stored record is any object that has a \<open>tailscaleVersion\<close>.
\<close>

theorem build_failure_keeps_new_config:
  assumes "readConfig (configFile e) = Some config"
    and "property config ''tailscaleVersion'' = Some identifier"
    and "fetchLatest e = Some latestVersion" and "latestVersion \<noteq> []"
    and "extractVersion identifier \<noteq> latestVersion"
    and "fetchSha e (''tailscale_'' @ latestVersion @ ''_amd64.tgz'') = Some sha256"
    and "sha256 \<noteq> []"
    and "writeSucceeds e"
    and "build e = BuildExit code" and "code \<noteq> 0"
    and "config' = updated config (getCurrentDate (now e))
                     (''tailscale_'' @ latestVersion @ ''_amd64'') sha256"
  shows "exitCode (main_with fetchLatest fetchSha e) = 1
       \<and> events (main_with fetchLatest fetchSha e) =
           [ReadConfig, FetchLatestVersion,
            FetchSHA256 (''tailscale_'' @ latestVersion @ ''_amd64.tgz''),
            WriteConfig config', BuildPlugin]
       \<and> fileWritten (main_with fetchLatest fetchSha e) = Some (stringify4 config' @ [newline])
       \<and> readConfig (fileWritten (main_with fetchLatest fetchSha e)) = Some config'
       \<and> property config' ''version'' = Some (getCurrentDate (now e))
       \<and> property config' ''tailscaleVersion'' = Some (''tailscale_'' @ latestVersion @ ''_amd64'')
       \<and> property config' ''tailscaleSHA256'' = Some sha256"
proof -
  have l: "truthy (fetchLatest e) = Some latestVersion"
    using assms(3,4) by (simp add: truthy_Some)
  have s: "truthy (fetchSha e (''tailscale_'' @ latestVersion @ ''_amd64.tgz'')) = Some sha256"
    using assms(6,7) by (simp add: truthy_Some)
  have b: "\<not> buildPlugin e"
    using assms(9,10) by (simp add: buildPlugin_def)
  have m: "main_with fetchLatest fetchSha e =
     \<lparr>exitCode = (if writeSucceeds e \<and> buildPlugin e then 0 else 1),
      events = [ReadConfig, FetchLatestVersion,
                FetchSHA256 (''tailscale_'' @ latestVersion @ ''_amd64.tgz''),
                WriteConfig config'] @ (if writeSucceeds e then [BuildPlugin] else []),
      fileWritten = (if writeSucceeds e then Some (configText config') else None)\<rparr>"
    using assms(1,2) l assms(5) s assms(11) by (rule main_with_update)
  have "is_object config" using assms(1) by (rule readConfig_is_object)
  then have o: "is_object config'" unfolding assms(11) by (rule is_object_updated)
  have p: "property config' ''version'' = Some (getCurrentDate (now e))"
    "property config' ''tailscaleVersion'' = Some (''tailscale_'' @ latestVersion @ ''_amd64'')"
    "property config' ''tailscaleSHA256'' = Some sha256"
    unfolding assms(11) by (simp_all add: property_set_property)
  show ?thesis
    using assms(8) b readConfig_configText[OF o] p
    by (simp add: m configText_def)
qed

theorem build_failure_keeps_new_config_witness:
  "exitCode (main (exampleEnv\<lparr>build := BuildExit 2\<rparr>)) = 1
   \<and> events (main (exampleEnv\<lparr>build := BuildExit 2\<rparr>)) =
        [ReadConfig, FetchLatestVersion, FetchSHA256 ''tailscale_1.92.0_amd64.tgz'',
         WriteConfig exampleUpdated, BuildPlugin]
   \<and> readConfig (fileWritten (main (exampleEnv\<lparr>build := BuildExit 2\<rparr>))) = Some exampleUpdated"
proof -
  let ?e = "exampleEnv\<lparr>build := BuildExit 2\<rparr>"
  have r: "readConfig (configFile ?e) = Some exampleConfig"
    using example_read by simp
  have l: "fetchLatestTailscaleVersion ?e = Some ''1.92.0''"
    using example_latest
    by (simp add: fetchLatestTailscaleVersion_def fetchLatestWith_env[of ?e exampleEnv])
  have d: "extractVersion ''tailscale_1.90.6_amd64'' \<noteq> ''1.92.0''"
    by (simp add: example_current)
  have s: "fetchSHA256 ?e (''tailscale_'' @ ''1.92.0'' @ ''_amd64.tgz'') =
             Some ''0123456789abcdef0123456789abcdef0123456789abcdef0123456789abcdef''"
    using example_sha by (simp add: fetchSHA256_env[of ?e exampleEnv])
  have u: "exampleUpdated = updated exampleConfig (getCurrentDate (now ?e))
             (''tailscale_'' @ ''1.92.0'' @ ''_amd64'') ''0123456789abcdef0123456789abcdef0123456789abcdef0123456789abcdef''"
    using exampleUpdated_eq by simp
  have w: "writeSucceeds ?e" by (simp add: exampleEnv_def)
  have b: "build ?e = BuildExit 2" by simp
  from build_failure_keeps_new_config[where fetchLatest = fetchLatestTailscaleVersion
      and fetchSha = fetchSHA256 and e = ?e, OF r example_identifier l _ d s _ w b _ u]
  show ?thesis
    by (simp add: main_def readConfig_configText[OF exampleUpdated_object, unfolded configText_def])
qed

lemma is_digit_digit_char: "is_digit (digit_char d)"
proof -
  have "d mod 10 < 10" by simp
  then have "d mod 10 = 0 \<or> d mod 10 = 1 \<or> d mod 10 = 2 \<or> d mod 10 = 3 \<or> d mod 10 = 4
      \<or> d mod 10 = 5 \<or> d mod 10 = 6 \<or> d mod 10 = 7 \<or> d mod 10 = 8 \<or> d mod 10 = 9"
    by arith
  then show ?thesis
    unfolding digit_char_def is_digit_def by (elim disjE) simp_all
qed

lemma digit_char_mod: "digit_char (n mod 10) = digit_char n"
  by (simp add: digit_char_def)

lemma String_nat_1: "n < 10 \<Longrightarrow> String_nat n = [digit_char n]"
  by (subst String_nat.simps) simp

lemma String_nat_2:
  assumes "10 \<le> n" and "n < 100"
  shows "String_nat n = [digit_char (n div 10), digit_char n]"
proof -
  have "n div 10 < 10" using assms by simp
  then show ?thesis
    using assms by (subst String_nat.simps) (simp add: String_nat_1 digit_char_mod)
qed

lemma String_nat_3:
  assumes "100 \<le> n" and "n < 1000"
  shows "String_nat n = [digit_char (n div 100), digit_char (n div 10), digit_char n]"
proof -
  have "10 \<le> n div 10" "n div 10 < 100" using assms by simp_all
  then have "String_nat (n div 10) = [digit_char (n div 10 div 10), digit_char (n div 10)]"
    by (rule String_nat_2)
  moreover have "n div 10 div 10 = n div 100"
    using div_mult2_eq[of n 10 10] by simp
  ultimately show ?thesis
    using assms by (subst String_nat.simps) (simp add: digit_char_mod)
qed

lemma String_nat_4:
  assumes "1000 \<le> n" and "n < 10000"
  shows "String_nat n =
           [digit_char (n div 1000), digit_char (n div 100), digit_char (n div 10), digit_char n]"
proof -
  have "100 \<le> n div 10" "n div 10 < 1000" using assms by simp_all
  then have "String_nat (n div 10) =
      [digit_char (n div 10 div 100), digit_char (n div 10 div 10), digit_char (n div 10)]"
    by (rule String_nat_3)
  moreover have "n div 10 div 10 = n div 100" "n div 10 div 100 = n div 1000"
    using div_mult2_eq[of n 10 10] div_mult2_eq[of n 10 100] by simp_all
  ultimately show ?thesis
    using assms by (subst String_nat.simps) (simp add: digit_char_mod)
qed

lemma two_digits:
  assumes "n < 100"
  shows "padStart 2 CHR ''0'' (String_nat n) = [digit_char (n div 10), digit_char n]"
proof (cases "n < 10")
  case True
  then show ?thesis by (simp add: padStart_def String_nat_1 digit_char_def)
next
  case False
  then show ?thesis using assms by (simp add: padStart_def String_nat_2)
qed

lemma getCurrentDate_format:
  assumes "month0 d < 12" and "dayOfMonth d \<le> 31"
  shows "getCurrentDate d =
           String_int (fullYear d) @ ''.''
           @ [digit_char ((month0 d + 1) div 10), digit_char (month0 d + 1)] @ ''.''
           @ [digit_char (dayOfMonth d div 10), digit_char (dayOfMonth d)]"
  using assms by (simp add: getCurrentDate_def Let_def two_digits)

lemma getCurrentDate_four_digit_year:
  assumes "1000 \<le> fullYear d" and "fullYear d \<le> 9999"
    and "month0 d < 12" and "dayOfMonth d \<le> 31"
  shows "is_date_format (getCurrentDate d)"
proof -
  have y: "String_int (fullYear d) =
      [digit_char (nat (fullYear d) div 1000), digit_char (nat (fullYear d) div 100),
       digit_char (nat (fullYear d) div 10), digit_char (nat (fullYear d))]"
    using assms(1,2) by (simp add: String_int_def String_nat_4)
  show ?thesis
    by (simp add: getCurrentDate_format[OF assms(3,4)] y is_date_format_def is_digit_digit_char)
qed

lemma fetchLatestWith_ignores:
  "fetchLatestWith cmp (e\<lparr>now := n\<rparr>) = fetchLatestWith cmp e"
  "fetchLatestWith cmp (e\<lparr>build := b\<rparr>) = fetchLatestWith cmp e"
  "fetchLatestWith cmp (e\<lparr>writeSucceeds := w\<rparr>) = fetchLatestWith cmp e"
  "fetchLatestWith cmp (e\<lparr>sha256File := f\<rparr>) = fetchLatestWith cmp e"
  by (rule fetchLatestWith_env; simp)+

lemma fetchSHA256_ignores:
  "fetchSHA256 (e\<lparr>now := n\<rparr>) p = fetchSHA256 e p"
  "fetchSHA256 (e\<lparr>build := b\<rparr>) p = fetchSHA256 e p"
  "fetchSHA256 (e\<lparr>writeSucceeds := w\<rparr>) p = fetchSHA256 e p"
  "fetchSHA256 (e\<lparr>stablePage := l\<rparr>) p = fetchSHA256 e p"
  "fetchSHA256 (e\<lparr>githubLatest := g\<rparr>) p = fetchSHA256 e p"
  by (rule fetchSHA256_env; simp)+

lemma lit_append: "lit p (p @ r) = Some r"
  by (simp add: lit_def)

lemma lit_Some: "lit p s = Some r \<Longrightarrow> s = p @ r"
  by (auto simp: lit_def split: if_splits) (metis append_take_drop_id)

lemma digits1_run:
  assumes "digit_run a" and "\<not> is_digit x"
  shows "digits1 (a @ x # r) = Some (a, x # r)"
proof -
  have all: "\<forall>c \<in> set a. is_digit c" using assms(1) by (simp add: digit_run_def list_all_iff)
  have t: "takeWhile is_digit (a @ x # r) = a"
    using all assms(2) by (simp add: takeWhile_append2)
  have d: "dropWhile is_digit (a @ x # r) = x # r"
    using all assms(2) by (simp add: dropWhile_append2)
  show ?thesis
    using assms(1) by (simp add: digits1_def t d digit_run_def)
qed

lemma digits1_Some:
  assumes "digits1 s = Some (d, r)"
  shows "digit_run d \<and> s = d @ r"
proof -
  from assms have d: "d = takeWhile is_digit s" "d \<noteq> []" and r: "r = dropWhile is_digit s"
    by (auto simp: digits1_def Let_def split: if_splits)
  have "list_all is_digit d"
    unfolding d(1) list_all_iff by (auto dest: set_takeWhileD)
  then show ?thesis
    using d r by (simp add: digit_run_def)
qed

lemma not_digit_dot: "\<not> is_digit CHR ''.''" and not_digit_underscore: "\<not> is_digit CHR ''_''"
  by (simp_all add: is_digit_def)

lemma version3_runs:
  assumes "digit_run a" and "digit_run b" and "digit_run c" and "\<not> is_digit x"
  shows "version3 (a @ ''.'' @ b @ ''.'' @ c @ x # r) = Some (a @ ''.'' @ b @ ''.'' @ c, x # r)"
proof -
  have 1: "digits1 (a @ CHR ''.'' # b @ CHR ''.'' # c @ x # r) = Some (a, CHR ''.'' # b @ CHR ''.'' # c @ x # r)"
    by (rule digits1_run[OF assms(1) not_digit_dot])
  have 2: "digits1 (b @ CHR ''.'' # c @ x # r) = Some (b, CHR ''.'' # c @ x # r)"
    by (rule digits1_run[OF assms(2) not_digit_dot])
  have 3: "digits1 (c @ x # r) = Some (c, x # r)"
    by (rule digits1_run[OF assms(3,4)])
  show ?thesis
    by (simp add: version3_def 1 2 3 lit_def)
qed

lemma version3_Some:
  assumes "version3 s = Some (v, r)"
  shows "\<exists>a b c. digit_run a \<and> digit_run b \<and> digit_run c \<and> v = a @ ''.'' @ b @ ''.'' @ c
           \<and> s = v @ r"
proof -
  from assms obtain a s1 s2 b s3 s4 c where
    1: "digits1 s = Some (a, s1)" and 2: "lit ''.'' s1 = Some s2"
    and 3: "digits1 s2 = Some (b, s3)" and 4: "lit ''.'' s3 = Some s4"
    and 5: "digits1 s4 = Some (c, r)" and v: "v = a @ ''.'' @ b @ ''.'' @ c"
    by (auto simp: version3_def split: bind_splits)
  have "s = a @ s1" "s1 = ''.'' @ s2" "s2 = b @ s3" "s3 = ''.'' @ s4" "s4 = c @ r"
    using digits1_Some[OF 1] lit_Some[OF 2] digits1_Some[OF 3] lit_Some[OF 4] digits1_Some[OF 5]
    by simp_all
  then have "s = v @ r" by (simp add: v)
  then show ?thesis
    using digits1_Some[OF 1] digits1_Some[OF 3] digits1_Some[OF 5] v by blast
qed

lemma matchAmd64At_occurrence:
  "(\<exists>post. matchAmd64At s = Some (v, post)) \<longleftrightarrow> occurrence [] v s"
proof
  assume "\<exists>post. matchAmd64At s = Some (v, post)"
  then obtain post s1 s2 where 1: "lit ''tailscale_'' s = Some s1"
    and 2: "version3 s1 = Some (v, s2)" and 3: "lit ''_amd64'' s2 = Some post"
    by (auto simp: matchAmd64At_def split: bind_splits)
  from version3_Some[OF 2] obtain a b c where
    r: "digit_run a" "digit_run b" "digit_run c" and v: "v = a @ ''.'' @ b @ ''.'' @ c"
    and s1: "s1 = v @ s2" by blast
  have "s = [] @ ''tailscale_'' @ v @ ''_amd64'' @ post"
    using lit_Some[OF 1] lit_Some[OF 3] s1 by simp
  then show "occurrence [] v s"
    unfolding occurrence_def using r v by blast
next
  assume "occurrence [] v s"
  then obtain a b c post where
    r: "digit_run a" "digit_run b" "digit_run c" and v: "v = a @ ''.'' @ b @ ''.'' @ c"
    and s: "s = ''tailscale_'' @ v @ ''_amd64'' @ post"
    unfolding occurrence_def by auto
  have "version3 (a @ ''.'' @ b @ ''.'' @ c @ CHR ''_'' # ''amd64'' @ post)
          = Some (a @ ''.'' @ b @ ''.'' @ c, CHR ''_'' # ''amd64'' @ post)"
    by (rule version3_runs[OF r not_digit_underscore])
  then have "matchAmd64At s = Some (v, post)"
    by (simp add: s v matchAmd64At_def lit_def)
  then show "\<exists>post. matchAmd64At s = Some (v, post)" ..
qed

lemma occurrence_prefix: "occurrence pre v s \<longleftrightarrow> (\<exists>t. s = pre @ t \<and> occurrence [] v t)"
proof
  assume "occurrence pre v s"
  then obtain a b c post where r: "digit_run a" "digit_run b" "digit_run c"
    and v: "v = a @ ''.'' @ b @ ''.'' @ c"
    and s: "s = pre @ ''tailscale_'' @ v @ ''_amd64'' @ post"
    unfolding occurrence_def by blast
  have "occurrence [] v (''tailscale_'' @ v @ ''_amd64'' @ post)"
    unfolding occurrence_def using r v by (intro exI[of _ a] exI[of _ b] exI[of _ c] exI[of _ post]) simp
  then show "\<exists>t. s = pre @ t \<and> occurrence [] v t" using s by blast
next
  assume "\<exists>t. s = pre @ t \<and> occurrence [] v t"
  then obtain t where t: "s = pre @ t" and o: "occurrence [] v t" by blast
  from o obtain a b c post where r: "digit_run a" "digit_run b" "digit_run c"
    and v: "v = a @ ''.'' @ b @ ''.'' @ c"
    and s: "t = [] @ ''tailscale_'' @ v @ ''_amd64'' @ post"
    unfolding occurrence_def by blast
  show "occurrence pre v s"
    unfolding occurrence_def using r v s t
    by (intro exI[of _ a] exI[of _ b] exI[of _ c] exI[of _ post]) simp
qed

lemma occurrence_Cons: "occurrence (p # ps) v (c # cs) \<longleftrightarrow> p = c \<and> occurrence ps v cs"
proof -
  have "(\<exists>t. c # cs = (p # ps) @ t \<and> occurrence [] v t)
          \<longleftrightarrow> p = c \<and> (\<exists>t. cs = ps @ t \<and> occurrence [] v t)"
    by auto
  then show ?thesis
    by (simp only: occurrence_prefix[of "p # ps"] occurrence_prefix[of ps])
qed

lemma occurrence_empty: "\<not> occurrence pre v []"
  by (simp add: occurrence_def)

lemma occurrence_Cons_elim:
  assumes "occurrence pre v (c # cs)"
  shows "occurrence [] v (c # cs) \<or> (\<exists>ps. pre = c # ps \<and> occurrence ps v cs)"
proof (cases pre)
  case Nil
  then show ?thesis using assms by simp
next
  case (Cons p ps)
  then have "p = c \<and> occurrence ps v cs" using assms by (simp only: occurrence_Cons)
  then show ?thesis using Cons by simp
qed

lemma searchAmd64_None: "searchAmd64 s = None \<longleftrightarrow> (\<forall>pre v. \<not> occurrence pre v s)"
proof (induction s)
  case Nil
  show ?case by (simp add: occurrence_empty)
next
  case (Cons c cs)
  show ?case
  proof (cases "matchAmd64At (c # cs)")
    case None
    then have no: "\<And>v. \<not> occurrence [] v (c # cs)"
      using matchAmd64At_occurrence[of "c # cs"] by simp
    have "searchAmd64 (c # cs) = searchAmd64 cs" using None by simp
    moreover have "(\<forall>pre v. \<not> occurrence pre v (c # cs)) \<longleftrightarrow> (\<forall>pre v. \<not> occurrence pre v cs)"
    proof (intro iffI allI)
      fix pre v
      assume "\<forall>pre v. \<not> occurrence pre v (c # cs)"
      then have "\<not> occurrence (c # pre) v (c # cs)" by blast
      then show "\<not> occurrence pre v cs" by (simp only: occurrence_Cons simp_thms)
    next
      fix pre v
      assume a: "\<forall>pre v. \<not> occurrence pre v cs"
      show "\<not> occurrence pre v (c # cs)"
      proof
        assume "occurrence pre v (c # cs)"
        from occurrence_Cons_elim[OF this] show False using no a by blast
      qed
    qed
    ultimately show ?thesis using Cons.IH by simp
  next
    case (Some a)
    then obtain v post where "matchAmd64At (c # cs) = Some (v, post)" by (cases a) auto
    then have "searchAmd64 (c # cs) = Some v" "occurrence [] v (c # cs)"
      using matchAmd64At_occurrence[of "c # cs" v] by auto
    then show ?thesis by auto
  qed
qed

lemma searchAmd64_Some:
  "searchAmd64 s = Some v \<Longrightarrow>
   \<exists>pre. occurrence pre v s \<and> (\<forall>pre' v'. occurrence pre' v' s \<longrightarrow> length pre \<le> length pre')"
proof (induction s)
  case Nil
  then show ?case by simp
next
  case (Cons c cs)
  show ?case
  proof (cases "matchAmd64At (c # cs)")
    case None
    then have no: "\<And>v. \<not> occurrence [] v (c # cs)"
      using matchAmd64At_occurrence[of "c # cs"] by simp
    have "searchAmd64 cs = Some v" using None Cons.prems by simp
    from Cons.IH[OF this] obtain ps where ps: "occurrence ps v cs"
      and least: "\<And>pre' v'. occurrence pre' v' cs \<Longrightarrow> length ps \<le> length pre'" by blast
    have "occurrence (c # ps) v (c # cs)" using ps by (simp add: occurrence_Cons)
    moreover have "length (c # ps) \<le> length pre'" if "occurrence pre' v' (c # cs)" for pre' v'
      using occurrence_Cons_elim[OF that] no least by auto
    ultimately show ?thesis by blast
  next
    case (Some a)
    then obtain w post where m: "matchAmd64At (c # cs) = Some (w, post)" by (cases a) auto
    then have "w = v" using Cons.prems by simp
    then have "occurrence [] v (c # cs)"
      using m matchAmd64At_occurrence[of "c # cs" v] by auto
    then show ?thesis by (intro exI[of _ "[]"]) simp
  qed
qed

lemma occurrence_unique_at:
  assumes "occurrence pre v s" and "occurrence pre' v' s" and "length pre = length pre'"
  shows "v = v'"
proof -
  from assms(1) obtain t where t: "s = pre @ t" and o: "occurrence [] v t"
    unfolding occurrence_prefix[of pre] by blast
  from assms(2) obtain t' where t': "s = pre' @ t'" and o': "occurrence [] v' t'"
    unfolding occurrence_prefix[of pre'] by blast
  have "t = t'" using t t' assms(3) by simp
  then show ?thesis
    using o o' matchAmd64At_occurrence[of t v] matchAmd64At_occurrence[of t v'] by auto
qed

lemma searchAmd64_first:
  assumes "occurrence pre v s"
    and "\<forall>pre' v'. occurrence pre' v' s \<longrightarrow> length pre \<le> length pre'"
  shows "searchAmd64 s = Some v"
proof -
  have "searchAmd64 s \<noteq> None" using assms(1) searchAmd64_None by blast
  then obtain w where w: "searchAmd64 s = Some w" by auto
  from searchAmd64_Some[OF w] obtain p where p: "occurrence p w s"
    and least: "\<forall>pre' v'. occurrence pre' v' s \<longrightarrow> length p \<le> length pre'" by blast
  have "length p = length pre" using assms p least by (meson le_antisym)
  then have "w = v" using occurrence_unique_at[OF p assms(1)] by simp
  then show ?thesis using w by simp
qed

lemma occurrence_nonempty: "occurrence pre v s \<Longrightarrow> v \<noteq> []"
  by (auto simp: occurrence_def)

lemma extractVersion_empty: "extractVersion s = [] \<longleftrightarrow> (\<forall>pre v. \<not> occurrence pre v s)"
proof (cases "searchAmd64 s")
  case None
  then show ?thesis using searchAmd64_None[of s] by (simp add: extractVersion_def)
next
  case (Some v)
  from searchAmd64_Some[OF Some] obtain pre where "occurrence pre v s" by blast
  then show ?thesis using Some occurrence_nonempty by (auto simp: extractVersion_def)
qed

text \<open>
  Claim C10. \<^verbatim>\<open>extractVersion\<close> finds its pattern anywhere in the text: where a substring
  of the form \<^verbatim>\<open>tailscale_<digits>.<digits>.<digits>_amd64\<close> occurs, with any text before
  and after it, the result is the version part of the first occurrence; and the result is
  the empty string exactly when there is no occurrence.
\<close>

theorem extractVersion_first_occurrence:
  "(occurrence pre v s \<and> (\<forall>pre' v'. occurrence pre' v' s \<longrightarrow> length pre \<le> length pre')
      \<longrightarrow> extractVersion s = v)
   \<and> (extractVersion s = [] \<longleftrightarrow> \<not> (\<exists>pre v. occurrence pre v s))"
  using searchAmd64_first[of pre v s] extractVersion_empty[of s]
  by (auto simp: extractVersion_def)

theorem extractVersion_first_occurrence_witness:
  "occurrence ''x '' ''1.2.3'' ''x tailscale_1.2.3_amd64.tgz''
   \<and> extractVersion ''x tailscale_1.2.3_amd64.tgz'' = ''1.2.3''
   \<and> extractVersion ''x tailscale_1.2.3_amd64.tgz'' \<noteq> []"
proof -
  let ?s = "''x tailscale_1.2.3_amd64.tgz''"
  have o: "occurrence ''x '' ''1.2.3'' ?s"
    unfolding occurrence_def
    by (intro exI[of _ "''1''"] exI[of _ "''2''"] exI[of _ "''3''"] exI[of _ "''.tgz''"])
       (simp add: digit_run_def is_digit_def)
  have least: "\<forall>pre' v'. occurrence pre' v' ?s \<longrightarrow> length ''x '' \<le> length pre'"
  proof (intro allI impI)
    fix pre' v'
    assume "occurrence pre' v' ?s"
    then obtain t where t: "?s = pre' @ ''tailscale_'' @ t"
      unfolding occurrence_def by auto
    show "length ''x '' \<le> length pre'"
    proof (cases pre')
      case Nil
      then show ?thesis using t by simp
    next
      case (Cons p ps)
      then show ?thesis using t by (cases ps) simp_all
    qed
  qed
  from extractVersion_first_occurrence[of "''x ''" "''1.2.3''" ?s] o least
  show ?thesis by blast
qed

lemma version3_shape: "version3 s = Some (v, r) \<Longrightarrow> version_shape v"
  unfolding version_shape_def using version3_Some[of s v r] by blast

lemma matchTgzAt_shape:
  assumes "matchTgzAt s = Some (v, r)"
  shows "version_shape v"
proof -
  from assms obtain s1 s2 where "version3 s1 = Some (v, s2)"
    by (auto simp: matchTgzAt_def split: bind_splits)
  then show ?thesis by (rule version3_shape)
qed

lemma matchAll_tgz_shape: "v \<in> set (matchAll_tgz s) \<Longrightarrow> version_shape v"
proof (induction s rule: matchAll_tgz.induct)
  case 1
  then show ?case by (simp add: matchAll_tgz.simps)
next
  case (2 c cs)
  show ?case
  proof (cases "matchTgzAt (c # cs)")
    case None
    then have "v \<in> set (matchAll_tgz cs)"
      using "2.prems" by (simp add: matchAll_tgz.simps)
    then show ?thesis using "2.IH"(1)[OF None] by simp
  next
    case (Some a)
    obtain w rest where a: "a = (w, rest)" by (cases a)
    have m: "matchTgzAt (c # cs) = Some (w, rest)" using Some a by simp
    have "v = w \<or> v \<in> set (matchAll_tgz rest)"
      using "2.prems" m by (simp add: matchAll_tgz.simps)
    then show ?thesis
    proof
      assume "v = w"
      then show ?thesis using matchTgzAt_shape[OF m] by simp
    next
      assume "v \<in> set (matchAll_tgz rest)"
      then show ?thesis using "2.IH"(2)[OF Some a[symmetric]] by simp
    qed
  qed
qed

lemma version_shape_nonempty: "version_shape v \<Longrightarrow> v \<noteq> []"
  by (auto simp: version_shape_def)

lemma set_insert_sorted: "set (insert_sorted cmp x ys) = insert x (set ys)"
  by (induction ys) auto

lemma set_sort_with: "set (sort_with cmp xs) = set xs"
  by (induction xs) (simp_all add: sort_with_def set_insert_sorted)

lemma set_set_add_all: "set (set_add_all seen xs) = set xs - set seen"
  by (induction xs arbitrary: seen) auto

lemma set_unique: "set (unique xs) = set xs"
  by (simp add: unique_def set_set_add_all)

lemma latestOfListing_member:
  assumes "latestOfListing cmp html = Some v"
  shows "v \<in> set (matchAll_tgz html)"
proof -
  from assms obtain rest where "sort_with cmp (unique (matchAll_tgz html)) = v # rest"
    by (auto simp: latestOfListing_def Let_def split: if_splits list.splits)
  then have "v \<in> set (sort_with cmp (unique (matchAll_tgz html)))" by simp
  then show ?thesis by (simp add: set_sort_with set_unique)
qed

lemma latestOfListing_nonempty: "latestOfListing cmp html = Some v \<Longrightarrow> v \<noteq> []"
  using latestOfListing_member matchAll_tgz_shape version_shape_nonempty by blast

lemma no_occurrence_without_t:
  assumes "CHR ''t'' \<notin> set s"
  shows "\<not> occurrence pre v s"
proof
  assume "occurrence pre v s"
  then obtain r where "s = pre @ ''tailscale_'' @ r"
    unfolding occurrence_def by auto
  then have "CHR ''t'' \<in> set s" by simp
  then show False using assms by simp
qed

lemma buildPlugin_iff: "buildPlugin e \<longleftrightarrow> build e = BuildExit 0"
  by (cases "build e") (simp_all add: buildPlugin_def)

text \<open>
  The run from the comparison on, when the stored version and the latest version differ:
  the checksum of the latest package is requested; without a checksum the run exits with
  1 there; with one, the updated record is written, the build follows a completed write,
  and the exit code is 0 exactly when write and build both succeed.
\<close>

lemma main_with_differ:
  assumes r: "readConfig (configFile e) = Some config"
    and p: "property config ''tailscaleVersion'' = Some identifier"
    and l: "fetchLatest e = Some latestVersion" and n: "latestVersion \<noteq> []"
    and d: "extractVersion identifier \<noteq> latestVersion"
  shows "take 3 (events (main_with fetchLatest fetchSha e)) =
           [ReadConfig, FetchLatestVersion,
            FetchSHA256 (''tailscale_'' @ latestVersion @ ''_amd64.tgz'')]"
    and "fetchSha e (''tailscale_'' @ latestVersion @ ''_amd64.tgz'') = None
         \<or> fetchSha e (''tailscale_'' @ latestVersion @ ''_amd64.tgz'') = Some [] \<longrightarrow>
         main_with fetchLatest fetchSha e =
           \<lparr>exitCode = 1,
            events = [ReadConfig, FetchLatestVersion,
                      FetchSHA256 (''tailscale_'' @ latestVersion @ ''_amd64.tgz'')],
            fileWritten = None\<rparr>"
    and "\<forall>sha256. fetchSha e (''tailscale_'' @ latestVersion @ ''_amd64.tgz'') = Some sha256
           \<and> sha256 \<noteq> [] \<longrightarrow>
         events (main_with fetchLatest fetchSha e) =
           [ReadConfig, FetchLatestVersion,
            FetchSHA256 (''tailscale_'' @ latestVersion @ ''_amd64.tgz''),
            WriteConfig (updated config (getCurrentDate (now e)) (''tailscale_'' @ latestVersion @ ''_amd64'') sha256)]
           @ (if writeSucceeds e then [BuildPlugin] else [])
         \<and> exitCode (main_with fetchLatest fetchSha e) =
             (if writeSucceeds e \<and> build e = BuildExit 0 then 0 else 1)"
proof -
  let ?pkg = "''tailscale_'' @ latestVersion @ ''_amd64.tgz''"
  let ?m = "main_with fetchLatest fetchSha e"
  have t: "truthy (fetchLatest e) = Some latestVersion"
    using l n by (simp add: truthy_Some)
  have none: "?m = \<lparr>exitCode = 1, events = [ReadConfig, FetchLatestVersion, FetchSHA256 ?pkg],
                     fileWritten = None\<rparr>"
    if "truthy (fetchSha e ?pkg) = None"
    using r p t d that by (rule main_with_no_checksum)
  have some: "?m = \<lparr>exitCode = (if writeSucceeds e \<and> buildPlugin e then 0 else 1),
      events = [ReadConfig, FetchLatestVersion, FetchSHA256 ?pkg,
                WriteConfig (updated config (getCurrentDate (now e)) (''tailscale_'' @ latestVersion @ ''_amd64'') sha256)]
               @ (if writeSucceeds e then [BuildPlugin] else []),
      fileWritten = (if writeSucceeds e
                     then Some (configText (updated config (getCurrentDate (now e)) (''tailscale_'' @ latestVersion @ ''_amd64'') sha256))
                     else None)\<rparr>"
    if "truthy (fetchSha e ?pkg) = Some sha256" for sha256
    using r p t d that refl by (rule main_with_update)
  show "take 3 (events ?m) = [ReadConfig, FetchLatestVersion, FetchSHA256 ?pkg]"
  proof (cases "truthy (fetchSha e ?pkg)")
    case None
    show ?thesis unfolding none[OF None] by simp
  next
    case (Some sha256)
    show ?thesis unfolding some[OF Some] by simp
  qed
  show "fetchSha e ?pkg = None \<or> fetchSha e ?pkg = Some [] \<longrightarrow>
        ?m = \<lparr>exitCode = 1, events = [ReadConfig, FetchLatestVersion, FetchSHA256 ?pkg],
              fileWritten = None\<rparr>"
    using none by (simp only: truthy_None[symmetric]) blast
  show "\<forall>sha256. fetchSha e ?pkg = Some sha256 \<and> sha256 \<noteq> [] \<longrightarrow>
         events ?m =
           [ReadConfig, FetchLatestVersion, FetchSHA256 ?pkg,
            WriteConfig (updated config (getCurrentDate (now e)) (''tailscale_'' @ latestVersion @ ''_amd64'') sha256)]
           @ (if writeSucceeds e then [BuildPlugin] else [])
         \<and> exitCode ?m = (if writeSucceeds e \<and> build e = BuildExit 0 then 0 else 1)"
  proof (intro allI impI)
    fix sha256
    assume "fetchSha e ?pkg = Some sha256 \<and> sha256 \<noteq> []"
    then have "truthy (fetchSha e ?pkg) = Some sha256" by (simp add: truthy_Some)
    from some[OF this] show "events ?m =
           [ReadConfig, FetchLatestVersion, FetchSHA256 ?pkg,
            WriteConfig (updated config (getCurrentDate (now e)) (''tailscale_'' @ latestVersion @ ''_amd64'') sha256)]
           @ (if writeSucceeds e then [BuildPlugin] else [])
         \<and> exitCode ?m = (if writeSucceeds e \<and> build e = BuildExit 0 then 0 else 1)"
      by (simp add: buildPlugin_iff)
  qed
qed

text \<open>
  Claim C5. When the version extracted from the stored identifier is, as a string, the
  latest version fetched, the run ends there: it exits with 0 after reading the
  configuration and fetching the version, and makes no checksum request, no write and no
  build. When the two strings differ, the run takes the update path: it requests the
  checksum of the latest package, exits with 1 when there is none, and otherwise writes
  the updated record and builds. This holds of \<^verbatim>\<open>main\<close> of both revisions: \<open>main\<close> and
  \<open>main_003\<close> are \<open>main_with\<close> at the functions of the revision. A version fetched is one
  that \<^verbatim>\<open>main\<close> takes as such, a string that is not empty.
\<close>

theorem same_string_ends_run_else_update:
  assumes "readConfig (configFile e) = Some config"
    and "property config ''tailscaleVersion'' = Some identifier"
    and "fetchLatest e = Some latestVersion" and "latestVersion \<noteq> []"
  shows "(extractVersion identifier = latestVersion \<longrightarrow>
            main_with fetchLatest fetchSha e =
              \<lparr>exitCode = 0, events = [ReadConfig, FetchLatestVersion], fileWritten = None\<rparr>)
       \<and> (extractVersion identifier \<noteq> latestVersion \<longrightarrow>
            take 3 (events (main_with fetchLatest fetchSha e)) =
              [ReadConfig, FetchLatestVersion,
               FetchSHA256 (''tailscale_'' @ latestVersion @ ''_amd64.tgz'')]
            \<and> (fetchSha e (''tailscale_'' @ latestVersion @ ''_amd64.tgz'') = None
                 \<or> fetchSha e (''tailscale_'' @ latestVersion @ ''_amd64.tgz'') = Some [] \<longrightarrow>
                 main_with fetchLatest fetchSha e =
                   \<lparr>exitCode = 1,
                    events = [ReadConfig, FetchLatestVersion,
                              FetchSHA256 (''tailscale_'' @ latestVersion @ ''_amd64.tgz'')],
                    fileWritten = None\<rparr>)
            \<and> (\<forall>sha256. fetchSha e (''tailscale_'' @ latestVersion @ ''_amd64.tgz'') = Some sha256
                   \<and> sha256 \<noteq> [] \<longrightarrow>
                 events (main_with fetchLatest fetchSha e) =
                   [ReadConfig, FetchLatestVersion,
                    FetchSHA256 (''tailscale_'' @ latestVersion @ ''_amd64.tgz''),
                    WriteConfig (updated config (getCurrentDate (now e)) (''tailscale_'' @ latestVersion @ ''_amd64'') sha256)]
                   @ (if writeSucceeds e then [BuildPlugin] else [])
                 \<and> exitCode (main_with fetchLatest fetchSha e) =
                     (if writeSucceeds e \<and> build e = BuildExit 0 then 0 else 1)))"
proof (intro conjI impI)
  assume same: "extractVersion identifier = latestVersion"
  have t: "truthy (fetchLatest e) = Some latestVersion"
    using assms(3,4) by (simp add: truthy_Some)
  show "main_with fetchLatest fetchSha e =
          \<lparr>exitCode = 0, events = [ReadConfig, FetchLatestVersion], fileWritten = None\<rparr>"
    using assms(1,2) t same by (rule main_with_up_to_date)
next
  assume d: "extractVersion identifier \<noteq> latestVersion"
  show "take 3 (events (main_with fetchLatest fetchSha e)) =
              [ReadConfig, FetchLatestVersion,
               FetchSHA256 (''tailscale_'' @ latestVersion @ ''_amd64.tgz'')]"
    using assms d by (rule main_with_differ(1))
next
  assume d: "extractVersion identifier \<noteq> latestVersion"
  assume "fetchSha e (''tailscale_'' @ latestVersion @ ''_amd64.tgz'') = None
          \<or> fetchSha e (''tailscale_'' @ latestVersion @ ''_amd64.tgz'') = Some []"
  with main_with_differ(2)[where fetchSha = fetchSha and fetchLatest = fetchLatest and e = e,
      OF assms d]
  show "main_with fetchLatest fetchSha e =
                   \<lparr>exitCode = 1,
                    events = [ReadConfig, FetchLatestVersion,
                              FetchSHA256 (''tailscale_'' @ latestVersion @ ''_amd64.tgz'')],
                    fileWritten = None\<rparr>"
    by blast
next
  assume d: "extractVersion identifier \<noteq> latestVersion"
  show "\<forall>sha256. fetchSha e (''tailscale_'' @ latestVersion @ ''_amd64.tgz'') = Some sha256
                   \<and> sha256 \<noteq> [] \<longrightarrow>
                 events (main_with fetchLatest fetchSha e) =
                   [ReadConfig, FetchLatestVersion,
                    FetchSHA256 (''tailscale_'' @ latestVersion @ ''_amd64.tgz''),
                    WriteConfig (updated config (getCurrentDate (now e)) (''tailscale_'' @ latestVersion @ ''_amd64'') sha256)]
                   @ (if writeSucceeds e then [BuildPlugin] else [])
                 \<and> exitCode (main_with fetchLatest fetchSha e) =
                     (if writeSucceeds e \<and> build e = BuildExit 0 then 0 else 1)"
    using assms d by (rule main_with_differ(3))
qed

lemma example_latest_same:
  "fetchLatestTailscaleVersion (exampleEnv\<lparr>stablePage := Reply True ''tailscale_1.90.6_amd64.tgz''\<rparr>)
     = Some ''1.90.6''"
  by (simp add: fetchLatestTailscaleVersion_def fetchLatestWith_def latestOfListing_def
      matchAll_tgz.simps scan_defs unique_def sort_with_def)

theorem same_string_ends_run_else_update_witness:
  "main (exampleEnv\<lparr>stablePage := Reply True ''tailscale_1.90.6_amd64.tgz''\<rparr>) =
     \<lparr>exitCode = 0, events = [ReadConfig, FetchLatestVersion], fileWritten = None\<rparr>
   \<and> events (main exampleEnv) =
       [ReadConfig, FetchLatestVersion, FetchSHA256 ''tailscale_1.92.0_amd64.tgz'',
        WriteConfig exampleUpdated, BuildPlugin]
   \<and> exitCode (main exampleEnv) = 0"
proof -
  let ?e = "exampleEnv\<lparr>stablePage := Reply True ''tailscale_1.90.6_amd64.tgz''\<rparr>"
  have r': "readConfig (configFile ?e) = Some exampleConfig"
    using example_read by simp
  have a: "main ?e = \<lparr>exitCode = 0, events = [ReadConfig, FetchLatestVersion], fileWritten = None\<rparr>"
    using same_string_ends_run_else_update[where fetchLatest = fetchLatestTailscaleVersion
          and fetchSha = fetchSHA256 and e = ?e, OF r' example_identifier example_latest_same]
    by (simp add: main_def example_current)
  have w: "writeSucceeds exampleEnv" "build exampleEnv = BuildExit 0"
    by (simp_all add: exampleEnv_def)
  have s: "fetchSHA256 exampleEnv (''tailscale_'' @ ''1.92.0'' @ ''_amd64.tgz'') =
             Some ''0123456789abcdef0123456789abcdef0123456789abcdef0123456789abcdef''"
    using example_sha by simp
  have d: "extractVersion ''tailscale_1.90.6_amd64'' \<noteq> ''1.92.0''"
    by (simp add: example_current)
  from same_string_ends_run_else_update[where fetchLatest = fetchLatestTailscaleVersion
          and fetchSha = fetchSHA256 and e = exampleEnv, OF example_read example_identifier example_latest]
  have "\<forall>sha256. fetchSHA256 exampleEnv (''tailscale_'' @ ''1.92.0'' @ ''_amd64.tgz'') = Some sha256
                   \<and> sha256 \<noteq> [] \<longrightarrow>
                 events (main_with fetchLatestTailscaleVersion fetchSHA256 exampleEnv) =
                   [ReadConfig, FetchLatestVersion,
                    FetchSHA256 (''tailscale_'' @ ''1.92.0'' @ ''_amd64.tgz''),
                    WriteConfig (updated exampleConfig (getCurrentDate (now exampleEnv)) (''tailscale_'' @ ''1.92.0'' @ ''_amd64'') sha256)]
                   @ (if writeSucceeds exampleEnv then [BuildPlugin] else [])
                 \<and> exitCode (main_with fetchLatestTailscaleVersion fetchSHA256 exampleEnv) =
                     (if writeSucceeds exampleEnv \<and> build exampleEnv = BuildExit 0 then 0 else 1)"
    using d by blast
  then have "events (main_with fetchLatestTailscaleVersion fetchSHA256 exampleEnv) =
                   [ReadConfig, FetchLatestVersion,
                    FetchSHA256 (''tailscale_'' @ ''1.92.0'' @ ''_amd64.tgz''),
                    WriteConfig (updated exampleConfig (getCurrentDate (now exampleEnv)) (''tailscale_'' @ ''1.92.0'' @ ''_amd64'') ''0123456789abcdef0123456789abcdef0123456789abcdef0123456789abcdef'')]
                   @ (if writeSucceeds exampleEnv then [BuildPlugin] else [])
                 \<and> exitCode (main_with fetchLatestTailscaleVersion fetchSHA256 exampleEnv) =
                     (if writeSucceeds exampleEnv \<and> build exampleEnv = BuildExit 0 then 0 else 1)"
    using s by blast
  then have b: "events (main exampleEnv) =
       [ReadConfig, FetchLatestVersion, FetchSHA256 ''tailscale_1.92.0_amd64.tgz'',
        WriteConfig exampleUpdated, BuildPlugin]
     \<and> exitCode (main exampleEnv) = 0"
    unfolding exampleUpdated_eq main_def using w by simp
  show ?thesis using a b by simp
qed

text \<open>
  Claim C6. When the stored identifier holds no substring of the form
  \<^verbatim>\<open>tailscale_<digits>.<digits>.<digits>_amd64\<close>, the version extracted is the empty
  string; a version that the listing of the primary source gives is never empty; so the
  two differ and the run takes the update path, as for any other difference: the
  checksum of the latest package is requested, and when there is one the updated record
  is written and the build follows. The run exits with 1 only when the checksum, the
  write or the build fails, never on the stored identifier. The stored record is any
  object that has a \<open>tailscaleVersion\<close>, whatever the string and whatever else the object
  holds; the witness is a stored file of that one member.
\<close>

theorem malformed_identifier_takes_update_path:
  assumes "\<not> (\<exists>pre v. occurrence pre v identifier)"
    and "readConfig (configFile e) = Some config"
    and "property config ''tailscaleVersion'' = Some identifier"
    and "stablePage e = Reply True html"
    and "latestOfListing cmp html = Some latestVersion"
  shows "extractVersion identifier = []
       \<and> fetchLatestWith cmp e = Some latestVersion
       \<and> latestVersion \<noteq> []
       \<and> take 3 (events (main_with (fetchLatestWith cmp) fetchSha e)) =
            [ReadConfig, FetchLatestVersion,
             FetchSHA256 (''tailscale_'' @ latestVersion @ ''_amd64.tgz'')]
       \<and> (fetchSha e (''tailscale_'' @ latestVersion @ ''_amd64.tgz'') = None
            \<or> fetchSha e (''tailscale_'' @ latestVersion @ ''_amd64.tgz'') = Some [] \<longrightarrow>
            main_with (fetchLatestWith cmp) fetchSha e =
              \<lparr>exitCode = 1,
               events = [ReadConfig, FetchLatestVersion,
                         FetchSHA256 (''tailscale_'' @ latestVersion @ ''_amd64.tgz'')],
               fileWritten = None\<rparr>)
       \<and> (\<forall>sha256. fetchSha e (''tailscale_'' @ latestVersion @ ''_amd64.tgz'') = Some sha256
              \<and> sha256 \<noteq> [] \<longrightarrow>
            events (main_with (fetchLatestWith cmp) fetchSha e) =
              [ReadConfig, FetchLatestVersion,
               FetchSHA256 (''tailscale_'' @ latestVersion @ ''_amd64.tgz''),
               WriteConfig (updated config (getCurrentDate (now e))
                             (''tailscale_'' @ latestVersion @ ''_amd64'') sha256)]
              @ (if writeSucceeds e then [BuildPlugin] else [])
            \<and> exitCode (main_with (fetchLatestWith cmp) fetchSha e) =
                (if writeSucceeds e \<and> build e = BuildExit 0 then 0 else 1))"
proof -
  have x: "extractVersion identifier = []"
    using assms(1) extractVersion_empty by blast
  have f: "fetchLatestWith cmp e = Some latestVersion"
    using assms(4,5) by (simp add: fetchLatestWith_def)
  have n: "latestVersion \<noteq> []"
    using assms(5) by (rule latestOfListing_nonempty)
  have d: "extractVersion identifier \<noteq> latestVersion"
    using x n by simp
  note p = main_with_differ[where fetchLatest = "fetchLatestWith cmp" and fetchSha = fetchSha
      and e = e, OF assms(2,3) f n d]
  show ?thesis
    using x f n p(1) p(2) p(3) by (intro conjI)
qed

lemma garbage_read:
  "readConfig (Some garbageFile) = Some [(''tailscaleVersion'', ''garbage'')]"
  by (simp add: readConfig_def JSON_parse_def parse_object_def garbageFile_def lit_def skip_ws_def
      is_json_ws_def parse_members.simps parse_string_def cons_result_def set_property_def)

theorem malformed_identifier_takes_update_path_witness:
  "extractVersion ''garbage'' = []
   \<and> readConfig (Some garbageFile) = Some [(''tailscaleVersion'', ''garbage'')]
   \<and> events (main (exampleEnv\<lparr>configFile := Some garbageFile\<rparr>)) =
       [ReadConfig, FetchLatestVersion, FetchSHA256 ''tailscale_1.92.0_amd64.tgz'',
        WriteConfig [(''tailscaleVersion'', ''tailscale_1.92.0_amd64''),
                     (''version'', ''2026.11.03''),
                     (''tailscaleSHA256'', ''0123456789abcdef0123456789abcdef0123456789abcdef0123456789abcdef'')],
        BuildPlugin]
   \<and> exitCode (main (exampleEnv\<lparr>configFile := Some garbageFile\<rparr>)) = 0"
proof -
  let ?c = "[(''tailscaleVersion'', ''garbage'')]"
  let ?e = "exampleEnv\<lparr>configFile := Some garbageFile\<rparr>"
  let ?h = "''0123456789abcdef0123456789abcdef0123456789abcdef0123456789abcdef''"
  have o: "\<not> (\<exists>pre v. occurrence pre v ''garbage'')"
    using no_occurrence_without_t[of "''garbage''"] by simp
  have r: "readConfig (configFile ?e) = Some ?c"
    using garbage_read by simp
  have i: "property ?c ''tailscaleVersion'' = Some ''garbage''"
    by (simp add: property_def)
  have p: "stablePage ?e =
      Reply True ''tailscale_1.90.6_amd64.tgz tailscale_1.92.0_amd64.tgz''"
    by (simp add: exampleEnv_def)
  have l: "latestOfListing compareVersions
      ''tailscale_1.90.6_amd64.tgz tailscale_1.92.0_amd64.tgz'' = Some ''1.92.0''"
    using example_latest
    by (simp add: fetchLatestTailscaleVersion_def fetchLatestWith_def exampleEnv_def)
  have s: "fetchSHA256 ?e (''tailscale_'' @ ''1.92.0'' @ ''_amd64.tgz'') = Some ?h"
    using example_sha by (simp add: fetchSHA256_env[of ?e exampleEnv])
  have w: "writeSucceeds ?e" "build ?e = BuildExit 0" "now ?e = now exampleEnv"
    by (simp_all add: exampleEnv_def)
  have u: "updated ?c (getCurrentDate (now ?e)) (''tailscale_'' @ ''1.92.0'' @ ''_amd64'') ?h
           = [(''tailscaleVersion'', ''tailscale_1.92.0_amd64''), (''version'', ''2026.11.03''),
              (''tailscaleSHA256'', ?h)]"
    unfolding w(3) by (simp add: set_property_def example_date not_array_index is_digit_def)
  note t = malformed_identifier_takes_update_path[where fetchSha = fetchSHA256 and e = ?e,
      OF o r i p l]
  from t have x: "extractVersion ''garbage'' = []" by blast
  from t have "\<forall>sha256. fetchSHA256 ?e (''tailscale_'' @ ''1.92.0'' @ ''_amd64.tgz'') = Some sha256
              \<and> sha256 \<noteq> [] \<longrightarrow>
            events (main_with (fetchLatestWith compareVersions) fetchSHA256 ?e) =
              [ReadConfig, FetchLatestVersion,
               FetchSHA256 (''tailscale_'' @ ''1.92.0'' @ ''_amd64.tgz''),
               WriteConfig (updated ?c (getCurrentDate (now ?e))
                             (''tailscale_'' @ ''1.92.0'' @ ''_amd64'') sha256)]
              @ (if writeSucceeds ?e then [BuildPlugin] else [])
            \<and> exitCode (main_with (fetchLatestWith compareVersions) fetchSHA256 ?e) =
                (if writeSucceeds ?e \<and> build ?e = BuildExit 0 then 0 else 1)"
    by blast
  then have "events (main_with (fetchLatestWith compareVersions) fetchSHA256 ?e) =
              [ReadConfig, FetchLatestVersion,
               FetchSHA256 (''tailscale_'' @ ''1.92.0'' @ ''_amd64.tgz''),
               WriteConfig (updated ?c (getCurrentDate (now ?e))
                             (''tailscale_'' @ ''1.92.0'' @ ''_amd64'') ?h)]
              @ (if writeSucceeds ?e then [BuildPlugin] else [])
            \<and> exitCode (main_with (fetchLatestWith compareVersions) fetchSHA256 ?e) =
                (if writeSucceeds ?e \<and> build ?e = BuildExit 0 then 0 else 1)"
    using s by blast
  then have "events (main ?e) =
       [ReadConfig, FetchLatestVersion, FetchSHA256 ''tailscale_1.92.0_amd64.tgz'',
        WriteConfig [(''tailscaleVersion'', ''tailscale_1.92.0_amd64''),
                     (''version'', ''2026.11.03''), (''tailscaleSHA256'', ?h)],
        BuildPlugin]
     \<and> exitCode (main ?e) = 0"
    unfolding u main_def fetchLatestTailscaleVersion_def using w(1,2) by simp
  then show ?thesis using x garbage_read by simp
qed

text \<open>
  Claim C4. On the update path the one record passed to \<^verbatim>\<open>writeConfig\<close> has \<open>version\<close> set
  to the current date in the format \<^verbatim>\<open>YYYY.MM.DD\<close>: the four digits of the year, a dot, the
  month in two digits, a dot, the day in two digits; \<open>tailscaleVersion\<close> is
  \<^verbatim>\<open>tailscale_<latest>_amd64\<close>, \<open>tailscaleSHA256\<close> is the checksum fetched, and every
  other property is that of the stored record: the record written has it exactly when
  the stored one has, with the same value. The clock is one that \<^verbatim>\<open>new Date()\<close> gives
  in a year of four digits: \<^verbatim>\<open>getMonth()\<close> is below 12 and \<^verbatim>\<open>getDate()\<close> at most 31.
\<close>

theorem update_writes_date_version_checksum:
  assumes "readConfig (configFile e) = Some config"
    and "property config ''tailscaleVersion'' = Some identifier"
    and "fetchLatest e = Some latestVersion" and "latestVersion \<noteq> []"
    and "extractVersion identifier \<noteq> latestVersion"
    and "fetchSha e (''tailscale_'' @ latestVersion @ ''_amd64.tgz'') = Some sha256"
    and "sha256 \<noteq> []"
    and "1000 \<le> fullYear (now e)" and "fullYear (now e) \<le> 9999"
    and "month0 (now e) < 12" and "dayOfMonth (now e) \<le> 31"
  shows "\<exists>c. filter is_write (events (main_with fetchLatest fetchSha e)) = [WriteConfig c]
           \<and> property c ''version'' = Some
               [digit_char (nat (fullYear (now e)) div 1000),
                digit_char (nat (fullYear (now e)) div 100),
                digit_char (nat (fullYear (now e)) div 10),
                digit_char (nat (fullYear (now e))),
                CHR ''.'',
                digit_char ((month0 (now e) + 1) div 10), digit_char (month0 (now e) + 1),
                CHR ''.'',
                digit_char (dayOfMonth (now e) div 10), digit_char (dayOfMonth (now e))]
           \<and> (\<exists>date. property c ''version'' = Some date \<and> is_date_format date)
           \<and> property c ''tailscaleVersion'' = Some (''tailscale_'' @ latestVersion @ ''_amd64'')
           \<and> property c ''tailscaleSHA256'' = Some sha256
           \<and> (\<forall>k. k \<notin> {''version'', ''tailscaleVersion'', ''tailscaleSHA256''} \<longrightarrow>
                  property c k = property config k)"
proof -
  define c where "c = updated config (getCurrentDate (now e))
                        (''tailscale_'' @ latestVersion @ ''_amd64'') sha256"
  have l: "truthy (fetchLatest e) = Some latestVersion"
    using assms(3,4) by (simp add: truthy_Some)
  have s: "truthy (fetchSha e (''tailscale_'' @ latestVersion @ ''_amd64.tgz'')) = Some sha256"
    using assms(6,7) by (simp add: truthy_Some)
  have m: "main_with fetchLatest fetchSha e =
     \<lparr>exitCode = (if writeSucceeds e \<and> buildPlugin e then 0 else 1),
      events = [ReadConfig, FetchLatestVersion,
                FetchSHA256 (''tailscale_'' @ latestVersion @ ''_amd64.tgz''),
                WriteConfig c] @ (if writeSucceeds e then [BuildPlugin] else []),
      fileWritten = (if writeSucceeds e then Some (configText c) else None)\<rparr>"
    using assms(1,2) l assms(5) s c_def by (rule main_with_update)
  have w: "filter is_write (events (main_with fetchLatest fetchSha e)) = [WriteConfig c]"
    by (simp add: m)
  have y: "String_int (fullYear (now e)) =
      [digit_char (nat (fullYear (now e)) div 1000), digit_char (nat (fullYear (now e)) div 100),
       digit_char (nat (fullYear (now e)) div 10), digit_char (nat (fullYear (now e)))]"
    using assms(8,9) by (simp add: String_int_def String_nat_4)
  have v: "property c ''version'' = Some (getCurrentDate (now e))"
    by (simp add: c_def property_set_property)
  have f: "getCurrentDate (now e) =
               [digit_char (nat (fullYear (now e)) div 1000),
                digit_char (nat (fullYear (now e)) div 100),
                digit_char (nat (fullYear (now e)) div 10),
                digit_char (nat (fullYear (now e))),
                CHR ''.'',
                digit_char ((month0 (now e) + 1) div 10), digit_char (month0 (now e) + 1),
                CHR ''.'',
                digit_char (dayOfMonth (now e) div 10), digit_char (dayOfMonth (now e))]"
    using getCurrentDate_format[OF assms(10,11)] by (simp add: y)
  have d: "is_date_format (getCurrentDate (now e))"
    using getCurrentDate_four_digit_year[OF assms(8,9,10,11)] .
  have i: "property c ''tailscaleVersion'' = Some (''tailscale_'' @ latestVersion @ ''_amd64'')"
    "property c ''tailscaleSHA256'' = Some sha256"
    by (simp_all add: c_def property_set_property)
  have k: "\<forall>k. k \<notin> {''version'', ''tailscaleVersion'', ''tailscaleSHA256''} \<longrightarrow>
                  property c k = property config k"
    by (simp add: c_def property_set_property)
  show ?thesis
  proof (intro exI[of _ c] conjI)
    show "filter is_write (events (main_with fetchLatest fetchSha e)) = [WriteConfig c]"
      by (rule w)
    show "property c ''version'' = Some
               [digit_char (nat (fullYear (now e)) div 1000),
                digit_char (nat (fullYear (now e)) div 100),
                digit_char (nat (fullYear (now e)) div 10),
                digit_char (nat (fullYear (now e))),
                CHR ''.'',
                digit_char ((month0 (now e) + 1) div 10), digit_char (month0 (now e) + 1),
                CHR ''.'',
                digit_char (dayOfMonth (now e) div 10), digit_char (dayOfMonth (now e))]"
      using v f by simp
    show "\<exists>date. property c ''version'' = Some date \<and> is_date_format date"
      using v d by blast
    show "property c ''tailscaleVersion'' = Some (''tailscale_'' @ latestVersion @ ''_amd64'')"
      by (rule i(1))
    show "property c ''tailscaleSHA256'' = Some sha256" by (rule i(2))
    show "\<forall>k. k \<notin> {''version'', ''tailscaleVersion'', ''tailscaleSHA256''} \<longrightarrow>
                  property c k = property config k"
      by (rule k)
  qed
qed

theorem update_writes_date_version_checksum_witness:
  "filter is_write (events (main exampleEnv)) = [WriteConfig exampleUpdated]
   \<and> property exampleUpdated ''version'' = Some ''2026.11.03''
   \<and> is_date_format ''2026.11.03''
   \<and> property exampleUpdated ''name'' = property exampleConfig ''name''
   \<and> property exampleUpdated ''minver'' = property exampleConfig ''minver''"
proof -
  have d: "extractVersion ''tailscale_1.90.6_amd64'' \<noteq> ''1.92.0''"
    by (simp add: example_current)
  have s: "fetchSHA256 exampleEnv (''tailscale_'' @ ''1.92.0'' @ ''_amd64.tgz'') =
             Some ''0123456789abcdef0123456789abcdef0123456789abcdef0123456789abcdef''"
    using example_sha by simp
  have n: "1000 \<le> fullYear (now exampleEnv)" "fullYear (now exampleEnv) \<le> 9999"
    "month0 (now exampleEnv) < 12" "dayOfMonth (now exampleEnv) \<le> 31"
    by (simp_all add: exampleEnv_def)
  from update_writes_date_version_checksum[where fetchLatest = fetchLatestTailscaleVersion
      and fetchSha = fetchSHA256 and e = exampleEnv,
      OF example_read example_identifier example_latest _ d s _ n]
  obtain c date where c: "filter is_write (events (main exampleEnv)) = [WriteConfig c]"
    and f: "property c ''version'' = Some date" "is_date_format date"
    and o: "\<forall>k. k \<notin> {''version'', ''tailscaleVersion'', ''tailscaleSHA256''} \<longrightarrow>
                  property c k = property exampleConfig k"
    unfolding main_def[symmetric] by auto
  have e: "c = exampleUpdated"
    using c by (simp add: example_run)
  have v: "property exampleUpdated ''version'' = Some ''2026.11.03''"
    by (simp add: exampleUpdated_def property_def)
  have "date = ''2026.11.03''" using f(1) v unfolding e by simp
  then have g: "is_date_format ''2026.11.03''" using f(2) by simp
  have "property exampleUpdated ''name'' = property exampleConfig ''name''"
    "property exampleUpdated ''minver'' = property exampleConfig ''minver''"
    using o unfolding e by simp_all
  then show ?thesis
    using c g v unfolding e by simp
qed

text \<open>
  Claim C7, as stated, fails in two ways. A tag whose first character is neither a digit
  nor the letter \<^verbatim>\<open>v\<close> is returned whole. And when the primary source fails by offering
  no version (the listing is fetched and holds no match) the fallback is not consulted:
  the result is \<^verbatim>\<open>null\<close>, whatever tag the metadata API has.
\<close>

theorem fallback_counterexample:
  "fetchLatestTailscaleVersion
     (exampleEnv\<lparr>stablePage := Rejected, githubLatest := Reply True (Some ''V1.92.0'')\<rparr>)
     = Some ''V1.92.0''
   \<and> \<not> is_digit (hd ''V1.92.0'')
   \<and> ''V1.92.0'' \<noteq> drop 1 ''V1.92.0''
   \<and> fetchLatestTailscaleVersion
     (exampleEnv\<lparr>stablePage := Reply True ''<html>no packages</html>'',
                 githubLatest := Reply True (Some ''v1.92.0'')\<rparr>)
     = None"
  by (simp add: fetchLatestTailscaleVersion_def fetchLatestWith_def latestOfListing_def
      fetchLatestVersionFromGitHub_def is_digit_def matchAll_tgz.simps scan_defs)

text \<open>
  Claim C7, amended. When the request of the listing fails (it is rejected, or the
  response is not ok), the fallback returns the release tag of the metadata API with one
  leading lower-case \<^verbatim>\<open>v\<close> removed when the tag starts with one, and the tag unchanged
  otherwise, as for every tag that starts with a digit. When the listing is fetched and
  holds no match, the result is \<^verbatim>\<open>null\<close> and the fallback is not consulted.
\<close>

theorem fallback_strips_leading_v:
  "((stablePage e = Rejected \<or> stablePage e = Reply False html)
      \<and> githubLatest e = Reply True (Some tagName) \<longrightarrow>
      fetchLatestTailscaleVersion e =
        (case tagName of
           [] \<Rightarrow> Some []
         | c # rest \<Rightarrow> if c = CHR ''v'' then Some rest else Some (c # rest))
      \<and> fetchLatestTailscaleVersion_003 e = fetchLatestTailscaleVersion e
      \<and> (tagName \<noteq> [] \<and> is_digit (hd tagName) \<longrightarrow>
           fetchLatestTailscaleVersion e = Some tagName))
   \<and> (stablePage e = Reply True html \<and> matchAll_tgz html = [] \<longrightarrow>
        fetchLatestTailscaleVersion e = None \<and> fetchLatestTailscaleVersion_003 e = None)"
proof (intro conjI impI)
  assume a: "(stablePage e = Rejected \<or> stablePage e = Reply False html)
      \<and> githubLatest e = Reply True (Some tagName)"
  have g: "fetchLatestTailscaleVersion e = fetchLatestVersionFromGitHub e"
    and h: "fetchLatestTailscaleVersion_003 e = fetchLatestVersionFromGitHub e"
    using a
    by (auto simp: fetchLatestTailscaleVersion_def fetchLatestTailscaleVersion_003_def
        fetchLatestWith_def)
  have c: "fetchLatestVersionFromGitHub e =
           (case tagName of
              [] \<Rightarrow> Some []
            | c # rest \<Rightarrow> if c = CHR ''v'' then Some rest else Some (c # rest))"
    using a by (simp add: fetchLatestVersionFromGitHub_def split: list.splits)
  show "fetchLatestTailscaleVersion e =
        (case tagName of
           [] \<Rightarrow> Some []
         | c # rest \<Rightarrow> if c = CHR ''v'' then Some rest else Some (c # rest))"
    using g c by simp
  show "fetchLatestTailscaleVersion_003 e = fetchLatestTailscaleVersion e"
    using g h by simp
  show "fetchLatestTailscaleVersion e = Some tagName"
    if "tagName \<noteq> [] \<and> is_digit (hd tagName)"
    using that unfolding g c by (cases tagName) (auto simp: is_digit_def)
next
  assume a: "stablePage e = Reply True html \<and> matchAll_tgz html = []"
  show "fetchLatestTailscaleVersion e = None"
    using a by (simp add: fetchLatestTailscaleVersion_def fetchLatestWith_def latestOfListing_def)
  show "fetchLatestTailscaleVersion_003 e = None"
    using a
    by (simp add: fetchLatestTailscaleVersion_003_def fetchLatestWith_def latestOfListing_def)
qed

theorem fallback_strips_leading_v_witness:
  "fetchLatestTailscaleVersion
     (exampleEnv\<lparr>stablePage := Reply False [], githubLatest := Reply True (Some ''v1.92.0'')\<rparr>)
     = Some ''1.92.0''
   \<and> fetchLatestTailscaleVersion
     (exampleEnv\<lparr>stablePage := Rejected, githubLatest := Reply True (Some ''1.92.0'')\<rparr>)
     = Some ''1.92.0''
   \<and> fetchLatestTailscaleVersion
     (exampleEnv\<lparr>stablePage := Reply True ''<html>no packages</html>''\<rparr>) = None"
proof -
  let ?e = "exampleEnv\<lparr>stablePage := Reply False [], githubLatest := Reply True (Some ''v1.92.0'')\<rparr>"
  let ?f = "exampleEnv\<lparr>stablePage := Rejected, githubLatest := Reply True (Some ''1.92.0'')\<rparr>"
  let ?g = "exampleEnv\<lparr>stablePage := Reply True ''<html>no packages</html>''\<rparr>"
  have 1: "(stablePage ?e = Rejected \<or> stablePage ?e = Reply False [])
            \<and> githubLatest ?e = Reply True (Some ''v1.92.0'')" by simp
  have 2: "(stablePage ?f = Rejected \<or> stablePage ?f = Reply False [])
            \<and> githubLatest ?f = Reply True (Some ''1.92.0'')" by simp
  have 3: "''1.92.0'' \<noteq> [] \<and> is_digit (hd ''1.92.0'')" by (simp add: is_digit_def)
  have 4: "stablePage ?g = Reply True ''<html>no packages</html>''
            \<and> matchAll_tgz ''<html>no packages</html>'' = []"
    by (simp add: matchAll_tgz.simps scan_defs)
  have a: "fetchLatestTailscaleVersion ?e = Some ''1.92.0''"
    using fallback_strips_leading_v[of ?e "[]" "''v1.92.0''"] 1 by simp
  have b: "fetchLatestTailscaleVersion ?f = Some ''1.92.0''"
    using fallback_strips_leading_v[of ?f "[]" "''1.92.0''"] 2 3 by blast
  have c: "fetchLatestTailscaleVersion ?g = None"
    using fallback_strips_leading_v[of ?g "''<html>no packages</html>''"] 4 by blast
  show ?thesis using a b c by simp
qed

text \<open>
  Claims C2 and C3 fail on \<^verbatim>\<open>src/update.ts\<close> by one defect: its \<^verbatim>\<open>fetchSHA256\<close> returns the
  first token of an ok reply as it is, where the one of \<^verbatim>\<open>part_003\<close> tests it for 64
  hexadecimal characters. The environment is the example with a checksum reply that is
  a page of markup.
\<close>

lemma markup_sha:
  "fetchSHA256 markupEnv ''tailscale_1.92.0_amd64.tgz'' = Some ''<html>Service''"
  by (simp add: markupEnv_def fetchSHA256_def first_field_def trim_def is_space_def)

lemma markup_sha_003:
  "fetchSHA256_003 markupEnv ''tailscale_1.92.0_amd64.tgz'' = None"
  by (simp add: markupEnv_def fetchSHA256_003_def first_field_def trim_def is_space_def Let_def)

text \<open>
  Claim C2, on the code: \<^verbatim>\<open>fetchSHA256\<close> of \<^verbatim>\<open>src/update.ts\<close> accepts and returns a first
  token that is not 64 hexadecimal characters; \<^verbatim>\<open>part_003\<close> rejects it.
\<close>

theorem fetchSHA256_returns_unvalidated_token:
  "fetchSHA256 markupEnv ''tailscale_1.92.0_amd64.tgz'' = Some ''<html>Service''
   \<and> \<not> (length ''<html>Service'' = 64 \<and> list_all is_hex ''<html>Service'')
   \<and> fetchSHA256_003 markupEnv ''tailscale_1.92.0_amd64.tgz'' = None"
  using markup_sha markup_sha_003 by simp

text \<open>
  Claim C3, on the code: \<^verbatim>\<open>main\<close> of \<^verbatim>\<open>src/update.ts\<close> rewrites the configuration with a
  checksum that is not known to be good, and exits with 0; \<^verbatim>\<open>main\<close> of \<^verbatim>\<open>part_003\<close> exits
  with 1 on the same replies and writes nothing.
\<close>

theorem main_writes_unvalidated_checksum:
  "events (main markupEnv) =
     [ReadConfig, FetchLatestVersion, FetchSHA256 ''tailscale_1.92.0_amd64.tgz'',
      WriteConfig (set_property exampleUpdated ''tailscaleSHA256'' ''<html>Service''), BuildPlugin]
   \<and> exitCode (main markupEnv) = 0
   \<and> main_003 markupEnv =
       \<lparr>exitCode = 1,
        events = [ReadConfig, FetchLatestVersion, FetchSHA256 ''tailscale_1.92.0_amd64.tgz''],
        fileWritten = None\<rparr>"
proof -
  have r: "readConfig (configFile markupEnv) = Some exampleConfig"
    using example_read by (simp add: markupEnv_def)
  have l: "fetchLatestTailscaleVersion markupEnv = Some ''1.92.0''"
    using example_latest
    by (simp add: markupEnv_def fetchLatestTailscaleVersion_def fetchLatestWith_ignores)
  have l3: "fetchLatestTailscaleVersion_003 markupEnv = Some ''1.92.0''"
    using example_latest_003
    by (simp add: markupEnv_def fetchLatestTailscaleVersion_003_def fetchLatestWith_ignores)
  have n: "''1.92.0'' \<noteq> []" by simp
  have d: "extractVersion ''tailscale_1.90.6_amd64'' \<noteq> ''1.92.0''"
    by (simp add: example_current)
  have w: "writeSucceeds markupEnv" "build markupEnv = BuildExit 0"
    "now markupEnv = now exampleEnv"
    by (simp_all add: markupEnv_def exampleEnv_def)
  have u: "updated exampleConfig (getCurrentDate (now markupEnv)) (''tailscale_'' @ ''1.92.0'' @ ''_amd64'') ''<html>Service''
           = set_property exampleUpdated ''tailscaleSHA256'' ''<html>Service''"
    unfolding w(3) by (simp add: exampleUpdated_def exampleConfig_def set_property_def example_date)
  have s: "fetchSHA256 markupEnv (''tailscale_'' @ ''1.92.0'' @ ''_amd64.tgz'') = Some ''<html>Service''
           \<and> ''<html>Service'' \<noteq> []"
    using markup_sha by simp
  have s3: "fetchSHA256_003 markupEnv (''tailscale_'' @ ''1.92.0'' @ ''_amd64.tgz'') = None
            \<or> fetchSHA256_003 markupEnv (''tailscale_'' @ ''1.92.0'' @ ''_amd64.tgz'') = Some []"
    using markup_sha_003 by simp
  note p = main_with_differ[where fetchLatest = fetchLatestTailscaleVersion
      and fetchSha = fetchSHA256 and e = markupEnv, OF r example_identifier l n d]
  note q = main_with_differ[where fetchLatest = fetchLatestTailscaleVersion_003
      and fetchSha = fetchSHA256_003 and e = markupEnv, OF r example_identifier l3 n d]
  have a: "events (main markupEnv) =
     [ReadConfig, FetchLatestVersion, FetchSHA256 ''tailscale_1.92.0_amd64.tgz'',
      WriteConfig (set_property exampleUpdated ''tailscaleSHA256'' ''<html>Service''), BuildPlugin]
     \<and> exitCode (main markupEnv) = 0"
    using p(3) s w(1,2) unfolding main_def u[symmetric] by auto
  have b: "main_003 markupEnv =
       \<lparr>exitCode = 1,
        events = [ReadConfig, FetchLatestVersion, FetchSHA256 ''tailscale_1.92.0_amd64.tgz''],
        fileWritten = None\<rparr>"
    using q(2) s3 unfolding main_003_def by auto
  show ?thesis using a b by simp
qed

section \<open>The latest version of a listing\<close>

lemma split_on_no_sep: "c \<notin> set d \<Longrightarrow> split_on c d = [d]"
proof (induction d)
  case Nil
  show ?case by simp
next
  case (Cons x d)
  then have "x \<noteq> c" and "split_on c d = [d]" by auto
  then show ?case by simp
qed

lemma split_on_sep: "c \<notin> set d \<Longrightarrow> split_on c (d @ c # r) = d # split_on c r"
proof (induction d)
  case Nil
  show ?case by simp
next
  case (Cons x d)
  then have "x \<noteq> c" and "split_on c (d @ c # r) = d # split_on c r" by auto
  then show ?case by simp
qed

lemma digit_run_no_dot: "digit_run d \<Longrightarrow> CHR ''.'' \<notin> set d"
proof
  assume "digit_run d" and "CHR ''.'' \<in> set d"
  then have "is_digit CHR ''.''" by (simp add: digit_run_def list_all_iff)
  then show False by (simp add: is_digit_def)
qed

lemma split_on_shape:
  assumes "digit_run a" and "digit_run b" and "digit_run c"
  shows "split_on CHR ''.'' (a @ ''.'' @ b @ ''.'' @ c) = [a, b, c]"
  using assms
  by (simp add: split_on_sep split_on_no_sep digit_run_no_dot)

lemma Number_digit_run: "digit_run d \<Longrightarrow> Number d = toDouble (decimal d)"
  by (simp add: Number_def digit_run_def)

lemma Number_exact: "digit_run d \<Longrightarrow> decimal d < 2 ^ 53 \<Longrightarrow> Number d = Fin (decimal d)"
  by (simp add: Number_digit_run toDouble_def)

lemma compareLoop_three:
  "compareLoop 3 0 [Fin x1, Fin x2, Fin x3] [Fin y1, Fin y2, Fin y3] =
     (if x1 \<noteq> y1 then sgn (int y1 - int x1)
      else if x2 \<noteq> y2 then sgn (int y2 - int x2)
      else if x3 \<noteq> y3 then sgn (int y3 - int x3)
      else 0)"
  by (simp add: numeral_3_eq_3 nth_opt_def)

lemma compareLoop_003_three:
  "compareLoop_003 (Suc (Suc (Suc 0))) 0 [Fin x1, Fin x2, Fin x3] [Fin y1, Fin y2, Fin y3] =
     (if x1 \<noteq> y1 then sgn (int y1 - int x1)
      else if x2 \<noteq> y2 then sgn (int y2 - int x2)
      else if x3 \<noteq> y3 then sgn (int y3 - int x3)
      else 0)"
  by (simp add: nth_opt_def or_zero_def Let_def)

lemma sgn_diff_le_0:
  fixes x y :: nat
  shows "x \<noteq> y \<Longrightarrow> (sgn (int y - int x) \<le> 0) = (y < x)"
  by (auto simp: sgn_if)

lemma compare_three_le:
  "((if x1 \<noteq> y1 then sgn (int y1 - int x1)
      else if x2 \<noteq> y2 then sgn (int y2 - int x2)
      else if x3 \<noteq> y3 then sgn (int y3 - int x3)
      else 0) \<le> 0) = dotted_le [y1, y2, y3] [x1, x2, x3]"
  by (simp add: sgn_diff_le_0)

lemma dotted_le_total: "length xs = length ys \<Longrightarrow> dotted_le xs ys \<or> dotted_le ys xs"
  by (induction xs ys rule: list_induct2) auto

lemma dotted_le_trans:
  "length xs = length ys \<Longrightarrow> length ys = length zs \<Longrightarrow>
   dotted_le xs ys \<Longrightarrow> dotted_le ys zs \<Longrightarrow> dotted_le xs zs"
  by (induction xs ys zs rule: list_induct3) auto

text \<open>What the two comparators do on versions of three components that are exact as numbers.\<close>

lemma exact_version_parts:
  assumes "exact_version v"
  obtains a b c where "split_on CHR ''.'' v = [a, b, c]"
    and "Number a = Fin (decimal a)" and "Number b = Fin (decimal b)"
    and "Number c = Fin (decimal c)"
proof -
  from assms obtain a b c where r: "digit_run a" "digit_run b" "digit_run c"
    and v: "v = a @ ''.'' @ b @ ''.'' @ c"
    unfolding exact_version_def version_shape_def by blast
  have s: "split_on CHR ''.'' v = [a, b, c]"
    unfolding v by (rule split_on_shape[OF r])
  have "decimal a < 2 ^ 53" "decimal b < 2 ^ 53" "decimal c < 2 ^ 53"
    using assms by (simp_all add: exact_version_def components_def s)
  then show thesis
    using that[OF s] r Number_exact by blast
qed

lemma compareVersions_exact:
  assumes "exact_version v" and "exact_version w"
  shows "(compareVersions v w \<le> 0) = version_le w v"
    and "compareVersions_003 v w = compareVersions v w"
proof -
  from assms(1) obtain a b c where v: "split_on CHR ''.'' v = [a, b, c]"
    "Number a = Fin (decimal a)" "Number b = Fin (decimal b)" "Number c = Fin (decimal c)"
    by (rule exact_version_parts)
  from assms(2) obtain a' b' c' where w: "split_on CHR ''.'' w = [a', b', c']"
    "Number a' = Fin (decimal a')" "Number b' = Fin (decimal b')" "Number c' = Fin (decimal c')"
    by (rule exact_version_parts)
  have 1: "compareVersions v w =
      (if decimal a \<noteq> decimal a' then sgn (int (decimal a') - int (decimal a))
       else if decimal b \<noteq> decimal b' then sgn (int (decimal b') - int (decimal b))
       else if decimal c \<noteq> decimal c' then sgn (int (decimal c') - int (decimal c))
       else 0)"
    by (simp only: compareVersions_def Let_def v w list.map compareLoop_three)
  have 2: "compareVersions_003 v w =
      (if decimal a \<noteq> decimal a' then sgn (int (decimal a') - int (decimal a))
       else if decimal b \<noteq> decimal b' then sgn (int (decimal b') - int (decimal b))
       else if decimal c \<noteq> decimal c' then sgn (int (decimal c') - int (decimal c))
       else 0)"
    by (simp add: compareVersions_003_def Let_def v w compareLoop_003_three
        del: compareLoop_003.simps)
  show "(compareVersions v w \<le> 0) = version_le w v"
    unfolding 1 compare_three_le
    by (simp add: version_le_def components_def v w)
  show "compareVersions_003 v w = compareVersions v w"
    by (simp only: 1 2)
qed

lemma exact_version_length:
  assumes "exact_version v"
  shows "length (components v) = 3"
proof -
  from assms obtain a b c where "split_on CHR ''.'' v = [a, b, c]"
    by (rule exact_version_parts)
  then show ?thesis by (simp add: components_def)
qed

lemma version_le_total:
  assumes "exact_version v" and "exact_version w"
  shows "version_le v w \<or> version_le w v"
  unfolding version_le_def
  by (rule dotted_le_total) (simp add: exact_version_length assms)

lemma version_le_trans:
  assumes "exact_version u" and "exact_version v" and "exact_version w"
    and "version_le u v" and "version_le v w"
  shows "version_le u w"
  using assms(4,5) unfolding version_le_def
  by (rule dotted_le_trans[rotated 2]) (simp_all add: exact_version_length assms)

lemma sort_with_Cons: "sort_with cmp (x # xs) = insert_sorted cmp x (sort_with cmp xs)"
  by (simp add: sort_with_def)

lemma insert_sorted_cong:
  "\<forall>y \<in> set ys. f x y = g x y \<Longrightarrow> insert_sorted f x ys = insert_sorted g x ys"
  by (induction ys) simp_all

lemma sort_with_cong:
  "\<forall>x \<in> set xs. \<forall>y \<in> set xs. f x y = g x y \<Longrightarrow> sort_with f xs = sort_with g xs"
proof (induction xs)
  case Nil
  show ?case by (simp add: sort_with_def)
next
  case (Cons x xs)
  have ih: "sort_with f xs = sort_with g xs" using Cons by simp
  have "\<forall>y \<in> set (sort_with g xs). f x y = g x y"
    using Cons.prems by (simp add: set_sort_with)
  then have "insert_sorted f x (sort_with g xs) = insert_sorted g x (sort_with g xs)"
    by (rule insert_sorted_cong)
  then show ?case by (simp add: sort_with_Cons ih)
qed

text \<open>The first element after sorting is a greatest one, when the comparator agrees with
  a total preorder on the elements.\<close>

lemma sort_with_head:
  assumes c: "\<forall>x \<in> A. \<forall>y \<in> A. (cmp x y \<le> 0) = le y x"
    and t: "\<forall>x \<in> A. \<forall>y \<in> A. le x y \<or> le y x"
    and tr: "\<forall>x \<in> A. \<forall>y \<in> A. \<forall>z \<in> A. le x y \<longrightarrow> le y z \<longrightarrow> le x z"
  shows "xs \<noteq> [] \<Longrightarrow> set xs \<subseteq> A \<Longrightarrow>
         \<exists>m ms. sort_with cmp xs = m # ms \<and> m \<in> set xs \<and> (\<forall>y \<in> set xs. le y m)"
proof (induction xs)
  case Nil
  then show ?case by simp
next
  case (Cons x xs)
  have xA: "x \<in> A" and xsA: "set xs \<subseteq> A" using Cons.prems(2) by simp_all
  have refl: "le x x" using t xA by blast
  show ?case
  proof (cases "xs = []")
    case True
    then show ?thesis using refl by (simp add: sort_with_def)
  next
    case False
    from Cons.IH[OF False xsA]
    obtain m ms where s: "sort_with cmp xs = m # ms" and m: "m \<in> set xs"
      and mx: "\<forall>y \<in> set xs. le y m" by blast
    have mA: "m \<in> A" using m xsA by blast
    have ceq: "(cmp x m \<le> 0) = le m x" using c xA mA by blast
    show ?thesis
    proof (cases "cmp x m \<le> 0")
      case True
      then have mle: "le m x" using ceq by simp
      have "le y x" if "y \<in> set xs" for y
      proof -
        have "y \<in> A" using that xsA by blast
        moreover have "le y m" using mx that by blast
        ultimately show ?thesis using tr mA xA mle by blast
      qed
      then have all: "\<forall>y \<in> set xs. le y x" by blast
      have h: "sort_with cmp (x # xs) = x # m # ms"
        using True by (simp add: sort_with_Cons s)
      show ?thesis
        unfolding h using refl all by simp
    next
      case False
      then have "\<not> le m x" using ceq by simp
      then have lxm: "le x m" using t xA mA by blast
      have h: "sort_with cmp (x # xs) = m # insert_sorted cmp x ms"
        using False by (simp add: sort_with_Cons s)
      show ?thesis
        unfolding h using lxm m mx by simp
    qed
  qed
qed

lemma unique_Nil_iff: "unique xs = [] \<longleftrightarrow> xs = []"
proof -
  have "set (unique xs) = set xs" by (rule set_unique)
  then show ?thesis by (metis set_empty)
qed

lemma latestOfListing_exact:
  assumes "\<forall>v \<in> set (matchAll_tgz html). \<forall>n \<in> set (components v). n < 2 ^ 53"
    and "matchAll_tgz html \<noteq> []"
  shows "\<exists>m. latestOfListing compareVersions html = Some m
           \<and> latestOfListing compareVersions_003 html = Some m
           \<and> m \<in> set (matchAll_tgz html)
           \<and> (\<forall>v \<in> set (matchAll_tgz html). version_le v m)"
proof -
  let ?u = "unique (matchAll_tgz html)"
  have ex: "\<forall>v \<in> set ?u. exact_version v"
  proof
    fix v assume "v \<in> set ?u"
    then have v: "v \<in> set (matchAll_tgz html)" by (simp add: set_unique)
    then have "version_shape v" by (rule matchAll_tgz_shape)
    moreover have "\<forall>n \<in> set (components v). n < 2 ^ 53" using assms(1) v by blast
    ultimately show "exact_version v" by (simp add: exact_version_def)
  qed
  have ne: "?u \<noteq> []" using assms(2) by (simp add: unique_Nil_iff)
  have c: "\<forall>x \<in> set ?u. \<forall>y \<in> set ?u. (compareVersions x y \<le> 0) = version_le y x"
    using compareVersions_exact(1) ex by blast
  have t: "\<forall>x \<in> set ?u. \<forall>y \<in> set ?u. version_le x y \<or> version_le y x"
    using version_le_total ex by blast
  have tr: "\<forall>x \<in> set ?u. \<forall>y \<in> set ?u. \<forall>z \<in> set ?u.
              version_le x y \<longrightarrow> version_le y z \<longrightarrow> version_le x z"
    using version_le_trans ex by blast
  from sort_with_head[of "set ?u" compareVersions version_le ?u, OF c t tr ne]
  obtain m ms where s: "sort_with compareVersions ?u = m # ms" and m: "m \<in> set ?u"
    and mx: "\<forall>y \<in> set ?u. version_le y m" by blast
  have "\<forall>x \<in> set ?u. \<forall>y \<in> set ?u. compareVersions_003 x y = compareVersions x y"
    using compareVersions_exact(2) ex by blast
  then have "sort_with compareVersions_003 ?u = sort_with compareVersions ?u"
    by (rule sort_with_cong)
  then have s3: "sort_with compareVersions_003 ?u = m # ms" using s by simp
  have a: "latestOfListing compareVersions html = Some m"
    using assms(2) s by (simp add: latestOfListing_def)
  have b: "latestOfListing compareVersions_003 html = Some m"
    using assms(2) s3 by (simp add: latestOfListing_def)
  have "m \<in> set (matchAll_tgz html)" using m by (simp add: set_unique)
  moreover have "\<forall>v \<in> set (matchAll_tgz html). version_le v m"
    using mx by (simp add: set_unique)
  ultimately show ?thesis using a b by blast
qed

lemmas version_le_eval = version_le_def components_def decimal_def digit_val_def

text \<open>
  Claim C1, as stated, fails where a component is too large to be exact as a number:
  \<^verbatim>\<open>Number\<close> rounds 9007199254740993 to 9007199254740992, the comparator finds the two
  versions equal, and the stable sort leaves the first of them in front.
\<close>

theorem latest_rounded_counterexample:
  "fetchLatestTailscaleVersion
     (exampleEnv\<lparr>stablePage := Reply True
        ''tailscale_1.0.9007199254740992_amd64.tgz tailscale_1.0.9007199254740993_amd64.tgz''\<rparr>)
     = Some ''1.0.9007199254740992''
   \<and> matchAll_tgz
        ''tailscale_1.0.9007199254740992_amd64.tgz tailscale_1.0.9007199254740993_amd64.tgz''
     = [''1.0.9007199254740992'', ''1.0.9007199254740993'']
   \<and> \<not> version_le ''1.0.9007199254740993'' ''1.0.9007199254740992''"
proof -
  have m: "matchAll_tgz
        ''tailscale_1.0.9007199254740992_amd64.tgz tailscale_1.0.9007199254740993_amd64.tgz''
     = [''1.0.9007199254740992'', ''1.0.9007199254740993'']"
    by (simp add: matchAll_tgz.simps scan_defs)
  have c: "compareVersions ''1.0.9007199254740993'' ''1.0.9007199254740992'' = 0"
    "compareVersions ''1.0.9007199254740992'' ''1.0.9007199254740993'' = 0"
    by (simp_all add: compare_defs bitlen.simps Let_def)
  have l: "latestOfListing compareVersions
        ''tailscale_1.0.9007199254740992_amd64.tgz tailscale_1.0.9007199254740993_amd64.tgz''
     = Some ''1.0.9007199254740992''"
    by (simp add: latestOfListing_def m unique_def sort_with_def c)
  have v: "\<not> version_le ''1.0.9007199254740993'' ''1.0.9007199254740992''"
    by (simp add: version_le_eval)
  show ?thesis
    using m l v by (simp add: fetchLatestTailscaleVersion_def fetchLatestWith_def)
qed

text \<open>
  Claim C1, amended. For every listing in which each component of each version is below
  \<open>2^53\<close>, where \<^verbatim>\<open>Number\<close> is exact, the version returned is one of the versions extracted
  by the pattern \<^verbatim>\<open>tailscale_<major>.<minor>.<patch>_amd64.tgz\<close> and is a greatest one in
  the dotted-numeric ordering: components compared from the left as integers, a missing
  one counting as 0 (each version extracted has three). Both revisions return it. A
  listing without a match gives no version.
\<close>

theorem latest_is_maximum:
  assumes "stablePage e = Reply True html"
    and "\<forall>v \<in> set (matchAll_tgz html). \<forall>n \<in> set (components v). n < 2 ^ 53"
  shows "(matchAll_tgz html = [] \<longrightarrow>
            fetchLatestTailscaleVersion e = None \<and> fetchLatestTailscaleVersion_003 e = None)
       \<and> (matchAll_tgz html \<noteq> [] \<longrightarrow>
            (\<exists>m. fetchLatestTailscaleVersion e = Some m
                \<and> fetchLatestTailscaleVersion_003 e = Some m
                \<and> m \<in> set (matchAll_tgz html)
                \<and> (\<forall>v \<in> set (matchAll_tgz html). version_le v m)))
       \<and> (\<forall>v \<in> set (matchAll_tgz html). length (components v) = 3)"
proof (intro conjI impI)
  have f: "fetchLatestTailscaleVersion e = latestOfListing compareVersions html"
    "fetchLatestTailscaleVersion_003 e = latestOfListing compareVersions_003 html"
    using assms(1)
    by (simp_all add: fetchLatestTailscaleVersion_def fetchLatestTailscaleVersion_003_def
        fetchLatestWith_def)
  {
    assume "matchAll_tgz html = []"
    then show "fetchLatestTailscaleVersion e = None" "fetchLatestTailscaleVersion_003 e = None"
      by (simp_all add: f latestOfListing_def)
  }
  {
    assume "matchAll_tgz html \<noteq> []"
    from latestOfListing_exact[OF assms(2) this]
    show "\<exists>m. fetchLatestTailscaleVersion e = Some m
                \<and> fetchLatestTailscaleVersion_003 e = Some m
                \<and> m \<in> set (matchAll_tgz html)
                \<and> (\<forall>v \<in> set (matchAll_tgz html). version_le v m)"
      unfolding f .
  }
  show "\<forall>v \<in> set (matchAll_tgz html). length (components v) = 3"
  proof
    fix v assume v: "v \<in> set (matchAll_tgz html)"
    then have "version_shape v" by (rule matchAll_tgz_shape)
    moreover have "\<forall>n \<in> set (components v). n < 2 ^ 53" using assms(2) v by blast
    ultimately have "exact_version v" by (simp add: exact_version_def)
    then show "length (components v) = 3" by (rule exact_version_length)
  qed
qed

theorem latest_is_maximum_witness:
  "fetchLatestTailscaleVersion
     (exampleEnv\<lparr>stablePage := Reply True
        ''tailscale_1.90.10_amd64.tgz tailscale_1.90.6_amd64.tgz''\<rparr>) = Some ''1.90.10''
   \<and> version_le ''1.90.6'' ''1.90.10''
   \<and> \<not> version_le ''1.90.10'' ''1.90.6''"
proof -
  let ?html = "''tailscale_1.90.10_amd64.tgz tailscale_1.90.6_amd64.tgz''"
  let ?e = "exampleEnv\<lparr>stablePage := Reply True ?html\<rparr>"
  have m: "matchAll_tgz ?html = [''1.90.10'', ''1.90.6'']"
    by (simp add: matchAll_tgz.simps scan_defs)
  have p: "stablePage ?e = Reply True ?html" by simp
  have b: "\<forall>v \<in> set (matchAll_tgz ?html). \<forall>n \<in> set (components v). n < 2 ^ 53"
    unfolding m by (simp add: components_def decimal_def digit_val_def)
  have le: "version_le ''1.90.6'' ''1.90.10''" and nle: "\<not> version_le ''1.90.10'' ''1.90.6''"
    by (simp_all add: version_le_eval)
  from latest_is_maximum[OF p b]
  obtain x where x: "fetchLatestTailscaleVersion ?e = Some x"
    and xin: "x \<in> set (matchAll_tgz ?html)"
    and xmax: "\<forall>v \<in> set (matchAll_tgz ?html). version_le v x"
    unfolding m by auto
  have "x = ''1.90.10''"
    using xin xmax nle unfolding m by auto
  then show ?thesis using x le nle by simp
qed

end
